theory Spec2Isabelle
  imports Main
begin

section \<open>Values, objects and the heap\<close>

text \<open>
  The module \<^verbatim>\<open>dist/main/index.js\<close> works on JavaScript objects: classes, their
  prototypes, trait functions and one \<^verbatim>\<open>Map\<close> per base class.  Objects have identity
  and are mutated in place, so the model keeps them in a heap indexed by addresses.
  A value is \<^verbatim>\<open>undefined\<close>, \<^verbatim>\<open>null\<close>, a primitive boolean or a reference.
\<close>

type_synonym addr = nat

datatype val = Undefined | Null | Bool bool | Ref addr

text \<open>
  The property keys the module reads and writes: the string key \<^verbatim>\<open>prototype\<close>, the three
  module-private symbols and the well-known symbol \<^verbatim>\<open>Symbol.hasInstance\<close>.
\<close>

datatype key = Kprototype | KappliedTrait | KwrappedTrait | KcachedApplications | KhasInstance

text \<open>
  What a \<^verbatim>\<open>throw\<close> carries.  \<open>Thrown n\<close> is an exception raised by user code;
  \<open>NonTermination\<close> stands for a walk along a cyclic prototype chain, which never returns.
\<close>

datatype error = TypeError | Thrown nat | NonTermination

text \<open>
  The callable behaviour of an object.  It is fixed when the function object is created, so
  a closure that captures a trait stores both the captured reference and the behaviour of
  the function it refers to.
  \<^item> \<open>Raw n\<close>: user function number \<open>n\<close> of the environment, an arrow function;
  \<^item> \<open>ClassCtor\<close>: the constructor of a class that declares no constructor, and
    \<open>UserCtor n\<close>: the constructor of a class that declares constructor \<open>n\<close> of the
    environment (calling either without \<^verbatim>\<open>new\<close> throws);
  \<^item> \<open>ObjectFn\<close>: the built-in \<^verbatim>\<open>Object\<close>, callable with and without \<^verbatim>\<open>new\<close>;
  \<^item> \<open>FunctionPrototypeHasInstance\<close>: the built-in \<^verbatim>\<open>Function.prototype[Symbol.hasInstance]\<close>;
  \<^item> \<open>BareTraitFn\<close>, \<open>CachedFn\<close>, \<open>DedupeFn\<close>: the arrow functions created by
    \<^verbatim>\<open>BareTrait\<close>, \<^verbatim>\<open>Cached\<close> and \<^verbatim>\<open>Dedupe\<close>, with the captured \<^verbatim>\<open>trait\<close>;
  \<^item> \<open>HasInstanceFn\<close>: the method created by \<^verbatim>\<open>HasInstance\<close>, with the behaviour of
    the captured \<^verbatim>\<open>priorHasInstance\<close> and the captured \<^verbatim>\<open>trait\<close>.
\<close>

datatype code =
    NotCallable
  | Raw nat
  | ClassCtor
  | UserCtor nat
  | ObjectFn
  | FunctionPrototypeHasInstance
  | BareTraitFn val code
  | CachedFn val code
  | DedupeFn val code
  | HasInstanceFn code val

text \<open>
  An object: its prototype, its own properties, the keys of the own properties that are
  neither writable nor configurable, its callable behaviour, whether it is the constructor
  of a class with an \<^verbatim>\<open>extends\<close> clause, and the entries it has as a \<^verbatim>\<open>Map\<close>.
\<close>

record obj =
  proto :: val
  props :: "key \<Rightarrow> val option"
  locked :: "key set"
  code :: code
  derived :: bool
  mapData :: "val \<Rightarrow> val option"

record heap =
  objs :: "addr \<Rightarrow> obj"
  nxt :: addr
  log :: "nat list"

type_synonym 'a result = "(error + 'a) \<times> heap"

type_synonym env = "nat \<Rightarrow> val \<Rightarrow> heap \<Rightarrow> val result"

text \<open>The intrinsic objects every realm has, at fixed addresses.\<close>

definition objectProto :: addr where "objectProto = 0"
definition functionProto :: addr where "functionProto = 1"
definition booleanProto :: addr where "booleanProto = 2"
definition functionProtoHasInstance :: addr where "functionProtoHasInstance = 3"
definition ObjectCtor :: addr where "ObjectCtor = 4"

definition blank :: "val \<Rightarrow> obj" where
  "blank p = \<lparr>proto = p, props = (\<lambda>k. None), locked = {}, code = NotCallable,
     derived = False, mapData = (\<lambda>k. None)\<rparr>"

definition realm :: heap where
  "realm = \<lparr>objs = (\<lambda>a. blank Null)
       (objectProto := blank Null,
        functionProto := (blank (Ref objectProto))
          \<lparr>props := (\<lambda>k. None)(KhasInstance \<mapsto> Ref functionProtoHasInstance),
           locked := {KhasInstance}\<rparr>,
        booleanProto := blank (Ref objectProto),
        functionProtoHasInstance :=
          (blank (Ref functionProto))\<lparr>code := FunctionPrototypeHasInstance\<rparr>,
        ObjectCtor := (blank (Ref functionProto))
          \<lparr>props := (\<lambda>k. None)(Kprototype \<mapsto> Ref objectProto), locked := {Kprototype},
           code := ObjectFn\<rparr>),
     nxt = 5, log = []\<rparr>"

definition alloc :: "obj \<Rightarrow> heap \<Rightarrow> addr \<times> heap" where
  "alloc ob h = (nxt h, h\<lparr>objs := (objs h)(nxt h := ob), nxt := Suc (nxt h)\<rparr>)"

fun truthy :: "val \<Rightarrow> bool" where
  "truthy Undefined = False"
| "truthy Null = False"
| "truthy (Bool b) = b"
| "truthy (Ref a) = True"

definition code_of :: "heap \<Rightarrow> val \<Rightarrow> code" where
  "code_of h v = (case v of Ref a \<Rightarrow> code (objs h a) | _ \<Rightarrow> NotCallable)"

subsection \<open>Property access\<close>

text \<open>
  \<^verbatim>\<open>o[k]\<close> on an object looks at the own properties and then follows the prototype
  chain.  The walk is a loop that ends at an object without prototype; on a cyclic chain it
  does not return, which is the value \<open>None\<close>.
\<close>

partial_function (option) lookup :: "heap \<Rightarrow> addr \<Rightarrow> key \<Rightarrow> val option" where
  "lookup h a k =
     (case props (objs h a) k of
        Some v \<Rightarrow> Some v
      | None \<Rightarrow> (case proto (objs h a) of Ref p \<Rightarrow> lookup h p k | _ \<Rightarrow> Some Undefined))"

declare lookup.simps [code]

definition returned :: "'a option \<Rightarrow> error + 'a" where
  "returned r = (case r of None \<Rightarrow> Inl NonTermination | Some x \<Rightarrow> Inr x)"

definition get :: "heap \<Rightarrow> val \<Rightarrow> key \<Rightarrow> error + val" where
  "get h v k =
     (case v of
        Undefined \<Rightarrow> Inl TypeError
      | Null \<Rightarrow> Inl TypeError
      | Bool b \<Rightarrow> returned (lookup h booleanProto k)
      | Ref a \<Rightarrow> returned (lookup h a k))"

text \<open>
  An assignment \<^verbatim>\<open>o[k] = v\<close> in strict mode: a \<^verbatim>\<open>TypeError\<close> on \<^verbatim>\<open>undefined\<close>,
  \<^verbatim>\<open>null\<close> and primitives, and on a property that \<open>o\<close> holds as not writable;
  otherwise an own data property of \<open>o\<close>.  (The module assigns under its own symbols
  only, which no object holds as not writable.)
\<close>

definition setProp :: "heap \<Rightarrow> val \<Rightarrow> key \<Rightarrow> val \<Rightarrow> unit result" where
  "setProp h v k x =
     (case v of
        Ref a \<Rightarrow>
          (if k \<in> locked (objs h a) then (Inl TypeError, h)
           else (Inr (), h\<lparr>objs := (objs h)(a := (objs h a)\<lparr>props := (props (objs h a))(k \<mapsto> x)\<rparr>)\<rparr>))
      | _ \<Rightarrow> (Inl TypeError, h))"

definition hasOwnProperty :: "heap \<Rightarrow> val \<Rightarrow> key \<Rightarrow> error + bool" where
  "hasOwnProperty h v k =
     (case v of
        Undefined \<Rightarrow> Inl TypeError
      | Null \<Rightarrow> Inl TypeError
      | Bool b \<Rightarrow> Inr False
      | Ref a \<Rightarrow> Inr (props (objs h a) k \<noteq> None))"

definition getPrototypeOf :: "heap \<Rightarrow> val \<Rightarrow> error + val" where
  "getPrototypeOf h v =
     (case v of
        Undefined \<Rightarrow> Inl TypeError
      | Null \<Rightarrow> Inl TypeError
      | Bool b \<Rightarrow> Inr (Ref booleanProto)
      | Ref a \<Rightarrow> Inr (proto (objs h a)))"

text \<open>
  \<^verbatim>\<open>Object.setPrototypeOf(o, p)\<close>: \<open>p\<close> must be an object or \<^verbatim>\<open>null\<close>; a primitive
  \<open>o\<close> is left alone; a prototype whose chain leads back to \<open>o\<close> is refused.
\<close>

definition isObject :: "val \<Rightarrow> bool" where
  "isObject v = (case v of Ref a \<Rightarrow> True | _ \<Rightarrow> False)"

partial_function (option) onChain :: "heap \<Rightarrow> val \<Rightarrow> addr \<Rightarrow> bool option" where
  "onChain h v a =
     (case v of
        Ref p \<Rightarrow> (if p = a then Some True else onChain h (proto (objs h p)) a)
      | _ \<Rightarrow> Some False)"

declare onChain.simps [code]

definition setPrototypeOf :: "heap \<Rightarrow> val \<Rightarrow> val \<Rightarrow> unit result" where
  "setPrototypeOf h v p =
     (if v = Undefined \<or> v = Null then (Inl TypeError, h)
      else if p \<noteq> Null \<and> \<not> isObject p then (Inl TypeError, h)
      else (case v of
              Ref a \<Rightarrow>
                (if proto (objs h a) = p then (Inr (), h)
                 else (case returned (onChain h p a) of
                         Inl e \<Rightarrow> (Inl e, h)
                       | Inr True \<Rightarrow> (Inl TypeError, h)
                       | Inr False \<Rightarrow>
                           (Inr (), h\<lparr>objs := (objs h)(a := (objs h a)\<lparr>proto := p\<rparr>)\<rparr>)))
            | _ \<Rightarrow> (Inr (), h)))"

section \<open>The trait engine\<close>

subsection \<open>wrap and unwrap\<close>

text \<open>\<^verbatim>\<open>const unwrap = wrapper => wrapper[_wrappedTrait] || wrapper\<close>\<close>

definition unwrap :: "heap \<Rightarrow> val \<Rightarrow> error + val" where
  "unwrap h wrapper =
     (case get h wrapper KwrappedTrait of
        Inl e \<Rightarrow> Inl e
      | Inr v \<Rightarrow> Inr (if truthy v then v else wrapper))"

text \<open>
  \<^verbatim>\<open>wrap(trait, wrapper)\<close>: sets the prototype of \<open>wrapper\<close> to \<open>trait\<close>, stores the
  back-reference on \<open>trait\<close> unless a lookup on \<open>trait\<close> already finds a truthy one, and
  returns \<open>wrapper\<close>.
\<close>

definition wrap :: "val \<Rightarrow> val \<Rightarrow> heap \<Rightarrow> val result" where
  "wrap trait wrapper h =
     (case setPrototypeOf h wrapper trait of
        (Inl e, h1) \<Rightarrow> (Inl e, h1)
      | (Inr u, h1) \<Rightarrow>
          (case get h1 trait KwrappedTrait of
             Inl e \<Rightarrow> (Inl e, h1)
           | Inr w \<Rightarrow>
               (if \<not> truthy w then
                  (case setProp h1 trait KwrappedTrait trait of
                     (Inl e, h2) \<Rightarrow> (Inl e, h2)
                   | (Inr u', h2) \<Rightarrow> (Inr wrapper, h2))
                else (Inr wrapper, h1))))"

subsection \<open>isTraitificationOf and expresses\<close>

text \<open>
  \<^verbatim>\<open>hasOwnProperty.call(proto, _appliedTrait) && proto[_appliedTrait] === unwrap(trait)\<close>.
  The right operand of \<^verbatim>\<open>&&\<close> is evaluated only when the left one is true.
\<close>

definition isTraitificationOf :: "heap \<Rightarrow> val \<Rightarrow> val \<Rightarrow> error + bool" where
  "isTraitificationOf h pr trait =
     (case hasOwnProperty h pr KappliedTrait of
        Inl e \<Rightarrow> Inl e
      | Inr False \<Rightarrow> Inr False
      | Inr True \<Rightarrow>
          (case get h pr KappliedTrait of
             Inl e \<Rightarrow> Inl e
           | Inr m \<Rightarrow> (case unwrap h trait of Inl e \<Rightarrow> Inl e | Inr u \<Rightarrow> Inr (m = u))))"

text \<open>
  The loop of \<^verbatim>\<open>expresses\<close>: \<^verbatim>\<open>while (it != null)\<close> stops at \<^verbatim>\<open>null\<close> and at
  \<^verbatim>\<open>undefined\<close>; an exception ends it.
\<close>

partial_function (option) expressesLoop :: "heap \<Rightarrow> val \<Rightarrow> val \<Rightarrow> (error + bool) option" where
  "expressesLoop h it trait =
     (if it = Undefined \<or> it = Null then Some (Inr False)
      else (case isTraitificationOf h it trait of
              Inl e \<Rightarrow> Some (Inl e)
            | Inr b \<Rightarrow>
                (if b then Some (Inr True)
                 else (case getPrototypeOf h it of
                         Inl e \<Rightarrow> Some (Inl e)
                       | Inr p \<Rightarrow> expressesLoop h p trait))))"

declare expressesLoop.simps [code]

definition expresses :: "heap \<Rightarrow> val \<Rightarrow> val \<Rightarrow> error + bool" where
  "expresses h it trait =
     (case expressesLoop h it trait of None \<Rightarrow> Inl NonTermination | Some r \<Rightarrow> r)"

subsection \<open>apply and the decorators\<close>

text \<open>
  The bodies below take the call \<^verbatim>\<open>trait(superclass)\<close> as the function \<open>run\<close>, so that
  the same definition serves the exported function and the closures that capture a trait.
\<close>

definition applyWith :: "(val \<Rightarrow> heap \<Rightarrow> val result) \<Rightarrow> val \<Rightarrow> val \<Rightarrow> heap \<Rightarrow> val result" where
  "applyWith run superclass trait h =
     (case run superclass h of
        (Inl e, h1) \<Rightarrow> (Inl e, h1)
      | (Inr application, h1) \<Rightarrow>
          (case get h1 application Kprototype of
             Inl e \<Rightarrow> (Inl e, h1)
           | Inr pr \<Rightarrow>
               (case unwrap h1 trait of
                  Inl e \<Rightarrow> (Inl e, h1)
                | Inr u \<Rightarrow>
                    (case setProp h1 pr KappliedTrait u of
                       (Inl e, h2) \<Rightarrow> (Inl e, h2)
                     | (Inr x, h2) \<Rightarrow> (Inr application, h2)))))"

text \<open>\<^verbatim>\<open>cachedApplications.get(trait)\<close> and \<^verbatim>\<open>cachedApplications.set(trait, application)\<close>\<close>

definition mapGet :: "heap \<Rightarrow> val \<Rightarrow> val \<Rightarrow> error + val" where
  "mapGet h m k =
     (case m of
        Ref a \<Rightarrow> Inr (case mapData (objs h a) k of Some v \<Rightarrow> v | None \<Rightarrow> Undefined)
      | _ \<Rightarrow> Inl TypeError)"

definition mapSet :: "heap \<Rightarrow> val \<Rightarrow> val \<Rightarrow> val \<Rightarrow> unit result" where
  "mapSet h m k v =
     (case m of
        Ref a \<Rightarrow> (Inr (), h\<lparr>objs := (objs h)(a := (objs h a)\<lparr>mapData := (mapData (objs h a))(k \<mapsto> v)\<rparr>)\<rparr>)
      | _ \<Rightarrow> (Inl TypeError, h))"

text \<open>Lines 151 to 155 of the source: the cache of \<open>superclass\<close>, created when missing.\<close>

definition cacheOf :: "val \<Rightarrow> heap \<Rightarrow> val result" where
  "cacheOf superclass h =
     (case get h superclass KcachedApplications of
        Inl e \<Rightarrow> (Inl e, h)
      | Inr c \<Rightarrow>
          (if \<not> truthy c then
             (case alloc (blank (Ref objectProto)) h of
                (m, h1) \<Rightarrow>
                  (case setProp h1 superclass KcachedApplications (Ref m) of
                     (Inl e, h2) \<Rightarrow> (Inl e, h2)
                   | (Inr u, h2) \<Rightarrow> (Inr (Ref m), h2)))
           else (Inr c, h)))"

text \<open>The arrow function that \<^verbatim>\<open>Cached\<close> passes to \<^verbatim>\<open>wrap\<close>.\<close>

definition CachedBody :: "(val \<Rightarrow> heap \<Rightarrow> val result) \<Rightarrow> val \<Rightarrow> val \<Rightarrow> heap \<Rightarrow> val result" where
  "CachedBody run trait superclass h =
     (case cacheOf superclass h of
        (Inl e, h1) \<Rightarrow> (Inl e, h1)
      | (Inr cachedApplications, h1) \<Rightarrow>
          (case mapGet h1 cachedApplications trait of
             Inl e \<Rightarrow> (Inl e, h1)
           | Inr application \<Rightarrow>
               (if \<not> truthy application then
                  (case run superclass h1 of
                     (Inl e, h2) \<Rightarrow> (Inl e, h2)
                   | (Inr application', h2) \<Rightarrow>
                       (case mapSet h2 cachedApplications trait application' of
                          (Inl e, h3) \<Rightarrow> (Inl e, h3)
                        | (Inr u, h3) \<Rightarrow> (Inr application', h3)))
                else (Inr application, h1))))"

text \<open>
  The arrow function that \<^verbatim>\<open>Dedupe\<close> passes to \<^verbatim>\<open>wrap\<close>:
  \<^verbatim>\<open>expresses(superclass.prototype, trait) ? superclass : trait(superclass)\<close>.
\<close>

definition DedupeBody :: "(val \<Rightarrow> heap \<Rightarrow> val result) \<Rightarrow> val \<Rightarrow> val \<Rightarrow> heap \<Rightarrow> val result" where
  "DedupeBody run trait superclass h =
     (case get h superclass Kprototype of
        Inl e \<Rightarrow> (Inl e, h)
      | Inr pr \<Rightarrow>
          (case expresses h pr trait of
             Inl e \<Rightarrow> (Inl e, h)
           | Inr True \<Rightarrow> (Inr superclass, h)
           | Inr False \<Rightarrow> run superclass h))"

text \<open>
  The method that \<^verbatim>\<open>HasInstance\<close> defines:
  \<^verbatim>\<open>priorHasInstance(it) || expresses(it, trait)\<close>.
\<close>

definition HasInstanceBody :: "(val \<Rightarrow> heap \<Rightarrow> val result) \<Rightarrow> val \<Rightarrow> val \<Rightarrow> heap \<Rightarrow> val result" where
  "HasInstanceBody prior trait it h =
     (case prior it h of
        (Inl e, h1) \<Rightarrow> (Inl e, h1)
      | (Inr r, h1) \<Rightarrow>
          (if truthy r then (Inr r, h1)
           else (case expresses h1 it trait of
                   Inl e \<Rightarrow> (Inl e, h1)
                 | Inr b \<Rightarrow> (Inr (Bool b), h1))))"

subsection \<open>Calling a function\<close>

text \<open>
  \<open>call \<Gamma> c arg h\<close> runs a function with behaviour \<open>c\<close> on one argument.  User functions
  are taken from the environment \<open>\<Gamma>\<close>; each of their invocations is recorded in the log.
  \<^verbatim>\<open>Object(x)\<close> is \<open>x\<close> for an object and a new object otherwise (a wrapper for a
  boolean).
  The built-in \<^verbatim>\<open>Function.prototype[Symbol.hasInstance]\<close>, called as a plain function, has
  no \<^verbatim>\<open>this\<close> and answers false.
\<close>

primrec call :: "env \<Rightarrow> code \<Rightarrow> val \<Rightarrow> heap \<Rightarrow> val result" where
  "call \<Gamma> NotCallable = (\<lambda>arg h. (Inl TypeError, h))"
| "call \<Gamma> (Raw n) = (\<lambda>arg h. case \<Gamma> n arg h of (r, h1) \<Rightarrow> (r, h1\<lparr>log := n # log h\<rparr>))"
| "call \<Gamma> ClassCtor = (\<lambda>arg h. (Inl TypeError, h))"
| "call \<Gamma> (UserCtor n) = (\<lambda>arg h. (Inl TypeError, h))"
| "call \<Gamma> ObjectFn =
     (\<lambda>arg h. case arg of
        Ref a \<Rightarrow> (Inr arg, h)
      | Bool b \<Rightarrow> (case alloc (blank (Ref booleanProto)) h of (i, h1) \<Rightarrow> (Inr (Ref i), h1))
      | _ \<Rightarrow> (case alloc (blank (Ref objectProto)) h of (i, h1) \<Rightarrow> (Inr (Ref i), h1)))"
| "call \<Gamma> FunctionPrototypeHasInstance = (\<lambda>arg h. (Inr (Bool False), h))"
| "call \<Gamma> (BareTraitFn trait c) = (\<lambda>arg h. applyWith (call \<Gamma> c) arg trait h)"
| "call \<Gamma> (CachedFn trait c) = (\<lambda>arg h. CachedBody (call \<Gamma> c) trait arg h)"
| "call \<Gamma> (DedupeFn trait c) = (\<lambda>arg h. DedupeBody (call \<Gamma> c) trait arg h)"
| "call \<Gamma> (HasInstanceFn c trait) = (\<lambda>arg h. HasInstanceBody (call \<Gamma> c) trait arg h)"

definition invoke :: "env \<Rightarrow> val \<Rightarrow> val \<Rightarrow> heap \<Rightarrow> val result" where
  "invoke \<Gamma> f arg h = call \<Gamma> (code_of h f) arg h"

text \<open>The exported \<^verbatim>\<open>apply(superclass, trait)\<close> (\<open>apply\<close> is a keyword here).\<close>

definition applyFn :: "env \<Rightarrow> val \<Rightarrow> val \<Rightarrow> heap \<Rightarrow> val result" where
  "applyFn \<Gamma> superclass trait h = applyWith (invoke \<Gamma> trait) superclass trait h"

text \<open>An arrow function is a new function object whose prototype is \<^verbatim>\<open>Function.prototype\<close>.\<close>

definition newFunction :: "code \<Rightarrow> heap \<Rightarrow> addr \<times> heap" where
  "newFunction c h = alloc ((blank (Ref functionProto))\<lparr>code := c\<rparr>) h"

definition BareTrait :: "val \<Rightarrow> heap \<Rightarrow> val result" where
  "BareTrait trait h =
     (case newFunction (BareTraitFn trait (code_of h trait)) h of
        (w, h1) \<Rightarrow> wrap trait (Ref w) h1)"

definition Cached :: "val \<Rightarrow> heap \<Rightarrow> val result" where
  "Cached trait h =
     (case newFunction (CachedFn trait (code_of h trait)) h of
        (w, h1) \<Rightarrow> wrap trait (Ref w) h1)"

definition Dedupe :: "val \<Rightarrow> heap \<Rightarrow> val result" where
  "Dedupe trait h =
     (case newFunction (DedupeFn trait (code_of h trait)) h of
        (w, h1) \<Rightarrow> wrap trait (Ref w) h1)"

text \<open>
  \<^verbatim>\<open>Object.defineProperty(o, k, {value: x})\<close>: a new property is neither writable nor
  configurable; an existing one keeps its attributes and cannot change when it is locked.
\<close>

definition defineProperty :: "heap \<Rightarrow> val \<Rightarrow> key \<Rightarrow> val \<Rightarrow> unit result" where
  "defineProperty h v k x =
     (case v of
        Ref a \<Rightarrow>
          (case props (objs h a) k of
             None \<Rightarrow>
               (Inr (), h\<lparr>objs := (objs h)(a := (objs h a)
                  \<lparr>props := (props (objs h a))(k \<mapsto> x), locked := insert k (locked (objs h a))\<rparr>)\<rparr>)
           | Some old \<Rightarrow>
               (if k \<in> locked (objs h a) then
                  (if old = x then (Inr (), h) else (Inl TypeError, h))
                else (Inr (), h\<lparr>objs := (objs h)(a := (objs h a)
                  \<lparr>props := (props (objs h a))(k \<mapsto> x)\<rparr>)\<rparr>)))
      | _ \<Rightarrow> (Inl TypeError, h))"

text \<open>
  \<^verbatim>\<open>HasInstance(trait)\<close>, in a realm that has \<^verbatim>\<open>Symbol.hasInstance\<close>: reads the
  current method, defines the new one on \<open>trait\<close> itself and returns \<open>trait\<close>.
\<close>

definition HasInstance :: "val \<Rightarrow> heap \<Rightarrow> val result" where
  "HasInstance trait h =
     (case get h trait KhasInstance of
        Inl e \<Rightarrow> (Inl e, h)
      | Inr priorHasInstance \<Rightarrow>
          (case newFunction (HasInstanceFn (code_of h priorHasInstance) trait) h of
             (f, h1) \<Rightarrow>
               (case defineProperty h1 trait KhasInstance (Ref f) of
                  (Inl e, h2) \<Rightarrow> (Inl e, h2)
                | (Inr u, h2) \<Rightarrow> (Inr trait, h2))))"

text \<open>\<^verbatim>\<open>const Trait = trait => HasInstance(Dedupe(Cached(BareTrait(trait))))\<close>\<close>

definition Trait :: "val \<Rightarrow> heap \<Rightarrow> val result" where
  "Trait trait h =
     (case BareTrait trait h of
        (Inl e, h1) \<Rightarrow> (Inl e, h1)
      | (Inr b, h1) \<Rightarrow>
          (case Cached b h1 of
             (Inl e, h2) \<Rightarrow> (Inl e, h2)
           | (Inr c, h2) \<Rightarrow>
               (case Dedupe c h2 of
                  (Inl e, h3) \<Rightarrow> (Inl e, h3)
                | (Inr d, h3) \<Rightarrow> HasInstance d h3)))"

subsection \<open>Classes, instances and the instanceof operator\<close>

text \<open>
  The evaluation of a class definition makes two objects: the prototype object and the
  constructor, whose \<^verbatim>\<open>prototype\<close> property is not writable.  \<^verbatim>\<open>class {}\<close> has
  \<^verbatim>\<open>Object.prototype\<close> and \<^verbatim>\<open>Function.prototype\<close> as their parents.
\<close>

definition newClass :: "val \<Rightarrow> val \<Rightarrow> code \<Rightarrow> bool \<Rightarrow> heap \<Rightarrow> val \<times> heap" where
  "newClass protoParent constructorParent c d h =
     (case alloc (blank protoParent) h of
        (p, h1) \<Rightarrow>
          (case alloc ((blank constructorParent)
                  \<lparr>props := (\<lambda>k. None)(Kprototype \<mapsto> Ref p), locked := {Kprototype},
                   code := c, derived := d\<rparr>) h1 of
             (f, h2) \<Rightarrow> (Ref f, h2)))"

definition classBase :: "heap \<Rightarrow> val \<times> heap" where
  "classBase h = newClass (Ref objectProto) (Ref functionProto) ClassCtor False h"

definition isConstructor :: "code \<Rightarrow> bool" where
  "isConstructor c = (case c of ClassCtor \<Rightarrow> True | UserCtor n \<Rightarrow> True | ObjectFn \<Rightarrow> True | _ \<Rightarrow> False)"

text \<open>
  \<^verbatim>\<open>class extends s { ... }\<close>, with the behaviour \<open>c\<close> of its constructor: \<open>s\<close> is
  \<^verbatim>\<open>null\<close> or a constructor, and its \<^verbatim>\<open>prototype\<close> is an object or \<^verbatim>\<open>null\<close>;
  anything else is a \<^verbatim>\<open>TypeError\<close>.  \<open>classExtends\<close> is \<^verbatim>\<open>class extends s {}\<close>.
\<close>

definition classExtendsWith :: "code \<Rightarrow> val \<Rightarrow> heap \<Rightarrow> val result" where
  "classExtendsWith c s h =
     (if s = Null then
        (case newClass Null (Ref functionProto) c True h of (f, h1) \<Rightarrow> (Inr f, h1))
      else if \<not> isConstructor (code_of h s) then (Inl TypeError, h)
      else (case get h s Kprototype of
              Inl e \<Rightarrow> (Inl e, h)
            | Inr pp \<Rightarrow>
                (if pp \<noteq> Null \<and> \<not> isObject pp then (Inl TypeError, h)
                 else (case newClass pp s c True h of (f, h1) \<Rightarrow> (Inr f, h1)))))"

definition classExtends :: "val \<Rightarrow> heap \<Rightarrow> val result" where
  "classExtends s h = classExtendsWith ClassCtor s h"

text \<open>
  \<^verbatim>\<open>new C()\<close>.  The constructor of a class without \<^verbatim>\<open>extends\<close> clause, and
  \<^verbatim>\<open>Object\<close>, make the new object: its prototype is the \<^verbatim>\<open>prototype\<close> of
  \<^verbatim>\<open>new.target\<close>, or \<^verbatim>\<open>Object.prototype\<close> when that is not an object.  The constructor
  that a class with an \<^verbatim>\<open>extends\<close> clause has by default calls \<^verbatim>\<open>super(...)\<close>: the
  prototype of the constructor must be a constructor (it is not for \<^verbatim>\<open>extends null\<close>)
  and is constructed with the same \<^verbatim>\<open>new.target\<close>.  A constructor that the class
  declares is user code: function \<open>n\<close> of the environment, applied to \<^verbatim>\<open>new.target\<close>,
  gives what \<^verbatim>\<open>new\<close> returns or throws, and a result that is not an object is the
  \<^verbatim>\<open>TypeError\<close> of a constructor that returns a primitive.
\<close>

definition allocateInstance :: "heap \<Rightarrow> val \<Rightarrow> val result" where
  "allocateInstance h newTarget =
     (case get h newTarget Kprototype of
        Inl e \<Rightarrow> (Inl e, h)
      | Inr pr \<Rightarrow>
          (case alloc (blank (if isObject pr then pr else Ref objectProto)) h of
             (i, h1) \<Rightarrow> (Inr (Ref i), h1)))"

definition userConstruct :: "env \<Rightarrow> nat \<Rightarrow> val \<Rightarrow> heap \<Rightarrow> val result" where
  "userConstruct \<Gamma> n newTarget h =
     (case \<Gamma> n newTarget h of
        (Inl e, h1) \<Rightarrow> (Inl e, h1)
      | (Inr v, h1) \<Rightarrow> (if isObject v then (Inr v, h1) else (Inl TypeError, h1)))"

partial_function (option) constructWith ::
    "env \<Rightarrow> heap \<Rightarrow> val \<Rightarrow> val \<Rightarrow> (val result) option" where
  "constructWith \<Gamma> h f newTarget =
     (case f of
        Ref a \<Rightarrow>
          (case code (objs h a) of
             ObjectFn \<Rightarrow> Some (allocateInstance h newTarget)
           | UserCtor n \<Rightarrow> Some (userConstruct \<Gamma> n newTarget h)
           | ClassCtor \<Rightarrow>
               (if derived (objs h a) then
                  (if isConstructor (code_of h (proto (objs h a)))
                   then constructWith \<Gamma> h (proto (objs h a)) newTarget
                   else Some (Inl TypeError, h))
                else Some (allocateInstance h newTarget))
           | _ \<Rightarrow> Some (Inl TypeError, h))
      | _ \<Rightarrow> Some (Inl TypeError, h))"

declare constructWith.simps [code]

definition construct :: "env \<Rightarrow> val \<Rightarrow> heap \<Rightarrow> val result" where
  "construct \<Gamma> c h =
     (case constructWith \<Gamma> h c c of None \<Rightarrow> (Inl NonTermination, h) | Some r \<Rightarrow> r)"

text \<open>
  The default behaviour of \<^verbatim>\<open>instanceof\<close>: is \<^verbatim>\<open>C.prototype\<close> on the prototype chain
  of the value?
\<close>

partial_function (option) chainHas :: "heap \<Rightarrow> val \<Rightarrow> val \<Rightarrow> bool option" where
  "chainHas h v pr =
     (case v of
        Ref a \<Rightarrow>
          (case proto (objs h a) of
             Ref q \<Rightarrow> (if Ref q = pr then Some True else chainHas h (Ref q) pr)
           | _ \<Rightarrow> Some False)
      | _ \<Rightarrow> Some False)"

declare chainHas.simps [code]

definition ordinaryHasInstance :: "heap \<Rightarrow> val \<Rightarrow> val \<Rightarrow> error + bool" where
  "ordinaryHasInstance h c v =
     (if code_of h c = NotCallable then Inr False
      else if \<not> isObject v then Inr False
      else (case get h c Kprototype of
              Inl e \<Rightarrow> Inl e
            | Inr pr \<Rightarrow> (if \<not> isObject pr then Inl TypeError else returned (chainHas h v pr))))"

text \<open>
  \<^verbatim>\<open>v instanceof t\<close>: the method found under \<^verbatim>\<open>Symbol.hasInstance\<close> is called with
  \<open>t\<close> as \<^verbatim>\<open>this\<close> and its result is converted to a boolean; without a method the
  default behaviour applies.
\<close>

definition instanceof :: "env \<Rightarrow> val \<Rightarrow> val \<Rightarrow> heap \<Rightarrow> bool result" where
  "instanceof \<Gamma> v t h =
     (if \<not> isObject t then (Inl TypeError, h)
      else (case get h t KhasInstance of
              Inl e \<Rightarrow> (Inl e, h)
            | Inr m \<Rightarrow>
                (if m = Undefined \<or> m = Null then
                   (if code_of h t = NotCallable then (Inl TypeError, h)
                    else (ordinaryHasInstance h t v, h))
                 else if code_of h m = NotCallable then (Inl TypeError, h)
                 else if code_of h m = FunctionPrototypeHasInstance then
                   (ordinaryHasInstance h t v, h)
                 else (case call \<Gamma> (code_of h m) v h of
                         (Inl e, h1) \<Rightarrow> (Inl e, h1)
                       | (Inr r, h1) \<Rightarrow> (Inr (truthy r), h1)))))"

subsection \<open>The builder\<close>

text \<open>\<^verbatim>\<open>traits.reduce((it, t) => t(it), this.superclass)\<close>\<close>

fun reduceTraits :: "env \<Rightarrow> val \<Rightarrow> val list \<Rightarrow> heap \<Rightarrow> val result" where
  "reduceTraits \<Gamma> it [] h = (Inr it, h)"
| "reduceTraits \<Gamma> it (t # ts) h =
     (case invoke \<Gamma> t it h of
        (Inl e, h1) \<Rightarrow> (Inl e, h1)
      | (Inr it', h1) \<Rightarrow> reduceTraits \<Gamma> it' ts h1)"

record TraitBuilder =
  superclass :: val

text \<open>The constructor: \<^verbatim>\<open>this.superclass = superclass || class {}\<close>\<close>

definition newTraitBuilder :: "val \<Rightarrow> heap \<Rightarrow> TraitBuilder \<times> heap" where
  "newTraitBuilder sc h =
     (if truthy sc then (\<lparr>superclass = sc\<rparr>, h)
      else (case classBase h of (c, h1) \<Rightarrow> (\<lparr>superclass = c\<rparr>, h1)))"

definition expressing :: "env \<Rightarrow> TraitBuilder \<Rightarrow> val list \<Rightarrow> heap \<Rightarrow> val result" where
  "expressing \<Gamma> b ts h = reduceTraits \<Gamma> (superclass b) ts h"

text \<open>The exported \<^verbatim>\<open>superclass\<close>, \<^verbatim>\<open>traits\<close> and \<^verbatim>\<open>trait\<close>.\<close>

definition superclassFn :: "val \<Rightarrow> heap \<Rightarrow> TraitBuilder \<times> heap" where
  "superclassFn sc h = newTraitBuilder sc h"

definition traits :: "env \<Rightarrow> val list \<Rightarrow> heap \<Rightarrow> val result" where
  "traits \<Gamma> ts h = (case superclassFn Undefined h of (b, h1) \<Rightarrow> expressing \<Gamma> b ts h1)"

definition trait :: "env \<Rightarrow> val list \<Rightarrow> heap \<Rightarrow> val result" where
  "trait = traits"

section \<open>User functions and heaps of the test suite\<close>

text \<open>
  The traits of the test suite are \<^verbatim>\<open>s => class extends s {}\<close>, function 0 of the
  environment.  Function 1 throws, function 3 throws on its first invocation and is such a
  trait afterwards.  Function 4 is the trait
  \<^verbatim>\<open>s => class extends s { constructor() { super(); return Object.create(null) } }\<close>,
  whose constructor is function 5.  The others return \<^verbatim>\<open>undefined\<close>.
\<close>

definition testEnv :: env where
  "testEnv n = (if n = 0 then classExtends
                else if n = 1 then (\<lambda>arg h. (Inl (Thrown 7), h))
                else if n = 3 then
                  (\<lambda>arg h. if 3 \<in> set (log h) then classExtends arg h else (Inl (Thrown 7), h))
                else if n = 4 then classExtendsWith (UserCtor 5)
                else if n = 5 then
                  (\<lambda>arg h. case alloc (blank Null) h of (i, h1) \<Rightarrow> (Inr (Ref i), h1))
                else (\<lambda>arg h. (Inr Undefined, h)))"

text \<open>
  \<open>testHeap\<close> is the realm with the trait function \<open>T\<close> (function 0) at address 5 and
  the throwing function at address 6.  \<open>plainHeap\<close> adds a third function at address 7.
\<close>

definition testHeap :: heap where
  "testHeap = snd (newFunction (Raw 1) (snd (newFunction (Raw 0) realm)))"

definition plainHeap :: heap where
  "plainHeap = snd (newFunction (Raw 2) testHeap)"

text \<open>\<open>bareHeap\<close> has \<^verbatim>\<open>BareTrait(T)\<close> at address 7.\<close>

definition bareHeap :: heap where
  "bareHeap = snd (BareTrait (Ref 5) testHeap)"

text \<open>
  The test \<^verbatim>\<open>T(T(Object))\<close> for \<^verbatim>\<open>Dedupe(BareTrait(s => class extends s {}))\<close>:
  \<open>dedupeHeap\<close> has the \<^verbatim>\<open>Dedupe\<close> of the function at address 7 at address 8, and
  \<open>dedupeHeap2\<close> is the heap after its first application to \<^verbatim>\<open>Object\<close>.
\<close>

definition dedupeHeap :: heap where
  "dedupeHeap = snd (Dedupe (Ref 7) bareHeap)"

definition dedupeHeap2 :: heap where
  "dedupeHeap2 = snd (invoke testEnv (Ref 8) (Ref ObjectCtor) dedupeHeap)"

text \<open>
  \<open>cachedHeap\<close> has \<^verbatim>\<open>Cached(T)\<close> at address 7.  \<open>subclassHeap\<close> adds
  \<^verbatim>\<open>class B1 {}\<close> at address 9 and \<^verbatim>\<open>class B2 extends B1 {}\<close> at address 11.
  \<open>flakyHeap\<close> has function 3 at address 7 and its \<^verbatim>\<open>Cached\<close> at address 8.
\<close>

definition cachedHeap :: heap where
  "cachedHeap = snd (Cached (Ref 5) testHeap)"

definition subclassHeap :: heap where
  "subclassHeap = snd (classExtends (fst (classBase cachedHeap)) (snd (classBase cachedHeap)))"

definition flakyHeap :: heap where
  "flakyHeap = snd (Cached (Ref 7) (snd (newFunction (Raw 3) testHeap)))"

text \<open>
  On \<open>shadowHeap\<close> the function \<open>g\<close> at address 6 has been the original of
  \<^verbatim>\<open>wrap(g, x)\<close>, with the function \<open>x\<close> at address 7 as its wrapper, so \<open>g\<close> carries a
  back-reference of its own.
\<close>

definition shadowHeap :: heap where
  "shadowHeap = snd (wrap (Ref 6) (Ref 7) plainHeap)"

text \<open>
  \<open>foreignHeap\<close> adds function 4 at address 7 to \<open>testHeap\<close>; \<open>foreignClassHeap\<close>
  is the heap after \<^verbatim>\<open>apply(Object, T)\<close> for that trait, with the class at address 9, and
  \<open>foreignInstanceHeap\<close> the heap after \<^verbatim>\<open>new\<close> on that class.
\<close>

definition foreignHeap :: heap where
  "foreignHeap = snd (newFunction (Raw 4) testHeap)"

definition foreignClassHeap :: heap where
  "foreignClassHeap = snd (applyFn testEnv (Ref ObjectCtor) (Ref 7) foreignHeap)"

definition foreignInstanceHeap :: heap where
  "foreignInstanceHeap = snd (construct testEnv (Ref 9) foreignClassHeap)"


text \<open>
  \<open>appliedHeap\<close> is \<open>cachedHeap\<close> after \<^verbatim>\<open>Cached(T)(Object)\<close>, which makes the class
  at address 10 and stores it in the map of \<^verbatim>\<open>Object\<close> at address 8.
  \<open>subclassAppliedHeap\<close> is \<open>subclassHeap\<close> after \<^verbatim>\<open>Cached(T)(B1)\<close>, which makes the
  class at address 14 and stores it in the map of \<open>B1\<close> at address 12.
\<close>

definition appliedHeap :: heap where
  "appliedHeap = snd (invoke testEnv (Ref 7) (Ref ObjectCtor) cachedHeap)"

definition subclassAppliedHeap :: heap where
  "subclassAppliedHeap = snd (invoke testEnv (Ref 7) (Ref 9) subclassHeap)"

text \<open>
  \<open>functionHeap\<close> is the realm with the trait function
  \<^verbatim>\<open>function T(s) { return class extends s {} }\<close> at address 6, the object that such a
  function has as its \<^verbatim>\<open>prototype\<close> at address 5, and the object
  \<^verbatim>\<open>Object.create(T.prototype)\<close> at address 7.  \<open>classHeap\<close> is the realm with
  \<^verbatim>\<open>class A {}\<close> at address 6, its prototype at address 5, and \<^verbatim>\<open>new A()\<close> at address 7.
  \<open>decoratedFunctionHeap\<close> and \<open>decoratedClassHeap\<close> are the heaps after
  \<^verbatim>\<open>HasInstance(T)\<close> and \<^verbatim>\<open>HasInstance(A)\<close>.
\<close>

definition functionHeap :: heap where
  "functionHeap =
     (case alloc (blank (Ref objectProto)) realm of
        (p, h1) \<Rightarrow>
          (case alloc ((blank (Ref functionProto))
                  \<lparr>props := (\<lambda>k. None)(Kprototype \<mapsto> Ref p), code := Raw 0\<rparr>) h1 of
             (f, h2) \<Rightarrow> snd (alloc (blank (Ref p)) h2)))"

definition classHeap :: heap where
  "classHeap = (case classBase realm of (c, h1) \<Rightarrow> snd (construct testEnv c h1))"

definition decoratedFunctionHeap :: heap where
  "decoratedFunctionHeap = snd (HasInstance (Ref 6) functionHeap)"

definition decoratedClassHeap :: heap where
  "decoratedClassHeap = snd (HasInstance (Ref 6) classHeap)"








section \<open>Notions used in the statements\<close>

text \<open>
  The heap after the assignment \<^verbatim>\<open>a[k] = x\<close> on an object \<open>a\<close>, and the heap after
  \<^verbatim>\<open>a.set(k, v)\<close> on a map \<open>a\<close>.
\<close>

definition updProp :: "heap \<Rightarrow> addr \<Rightarrow> key \<Rightarrow> val \<Rightarrow> heap" where
  "updProp h a k x =
     h\<lparr>objs := (objs h)(a := (objs h a)\<lparr>props := (props (objs h a))(k \<mapsto> x)\<rparr>)\<rparr>"

definition updMap :: "heap \<Rightarrow> addr \<Rightarrow> val \<Rightarrow> val \<Rightarrow> heap" where
  "updMap h a k v =
     h\<lparr>objs := (objs h)(a := (objs h a)\<lparr>mapData := (mapData (objs h a))(k \<mapsto> v)\<rparr>)\<rparr>"

text \<open>
  The nested application \<^verbatim>\<open>Tn(...(T2(T1(B))))\<close> of the specification: the last trait
  of the list is applied to the nested application of the traits before it.  The list is
  taken in reverse, last trait first.
\<close>

fun nestedRev :: "env \<Rightarrow> val \<Rightarrow> val list \<Rightarrow> heap \<Rightarrow> val result" where
  "nestedRev \<Gamma> B [] h = (Inr B, h)"
| "nestedRev \<Gamma> B (t # rts) h =
     (case nestedRev \<Gamma> B rts h of
        (Inl e, h1) \<Rightarrow> (Inl e, h1)
      | (Inr c, h1) \<Rightarrow> invoke \<Gamma> t c h1)"

definition nested :: "env \<Rightarrow> val \<Rightarrow> val list \<Rightarrow> heap \<Rightarrow> val result" where
  "nested \<Gamma> B ts h = nestedRev \<Gamma> B (rev ts) h"

text \<open>
  Two heaps agree on a set of objects for a key: the objects of the set have the same
  property under the key and the same prototype in both heaps, and the set contains the
  prototypes of its objects.
\<close>

definition agree :: "addr set \<Rightarrow> key \<Rightarrow> heap \<Rightarrow> heap \<Rightarrow> bool" where
  "agree S k h h' \<longleftrightarrow>
     (\<forall>a\<in>S. props (objs h' a) k = props (objs h a) k \<and> proto (objs h' a) = proto (objs h a)
        \<and> (\<forall>p. proto (objs h a) = Ref p \<longrightarrow> p \<in> S))"

text \<open>The prototype links of a heap, as a relation between objects.\<close>

definition protoRel :: "heap \<Rightarrow> (addr \<times> addr) set" where
  "protoRel h = {(a, p). proto (objs h a) = Ref p}"

text \<open>
  A heap without dangling references: a value is allocated when it is no reference or a
  reference to an existing object, and in a well-formed heap the prototype and the
  \<^verbatim>\<open>prototype\<close> property of every existing object are allocated.
\<close>

definition allocated :: "heap \<Rightarrow> val \<Rightarrow> bool" where
  "allocated h v = (case v of Ref a \<Rightarrow> a < nxt h | _ \<Rightarrow> True)"

definition wellFormed :: "heap \<Rightarrow> bool" where
  "wellFormed h =
     list_all (\<lambda>a. allocated h (proto (objs h a))
                 \<and> (case props (objs h a) Kprototype of Some v \<Rightarrow> allocated h v | None \<Rightarrow> True))
       [0..<nxt h]"

text \<open>
  The objects that exist in \<open>h\<close> are unchanged in \<open>h'\<close>: they have the same prototype
  and the same properties.
\<close>

definition keys :: "key list" where
  "keys = [Kprototype, KappliedTrait, KwrappedTrait, KcachedApplications, KhasInstance]"

definition unchanged :: "heap \<Rightarrow> heap \<Rightarrow> bool" where
  "unchanged h h' =
     list_all (\<lambda>a. proto (objs h' a) = proto (objs h a)
                 \<and> list_all (\<lambda>k. props (objs h' a) k = props (objs h a) k) keys)
       [0..<nxt h]"




section \<open>Properties\<close>

subsection \<open>Writing one property leaves the others alone\<close>

lemma setProp_Inr:
  "setProp h v k x = (Inr u, h2) \<Longrightarrow> \<exists>a. v = Ref a \<and> h2 = updProp h a k x"
  by (auto simp: setProp_def updProp_def split: val.splits if_splits)

lemma nxt_updProp: "nxt (updProp h a k x) = nxt h"
  by (simp add: updProp_def)

lemma lookup_own: "props (objs h a) k = Some v \<Longrightarrow> lookup h a k = Some v"
  by (subst lookup.simps) simp

lemma lookup_step:
  "props (objs h a) k = None \<Longrightarrow> proto (objs h a) = Ref p \<Longrightarrow> lookup h a k = lookup h p k"
  by (subst lookup.simps) simp

lemma lookup_end:
  "props (objs h a) k = None \<Longrightarrow> \<forall>p. proto (objs h a) \<noteq> Ref p \<Longrightarrow>
     lookup h a k = Some Undefined"
  by (subst lookup.simps) (simp split: val.splits)

lemma agree_sym: "agree S k h h' \<Longrightarrow> agree S k h' h"
  unfolding agree_def by metis

lemma lookup_agree_le:
  assumes "lookup h b k = Some v"
  shows "b \<in> S \<Longrightarrow> agree S k h h' \<Longrightarrow> lookup h' b k = Some v"
proof (induct rule: lookup.raw_induct [OF _ assms])
  case (1 lookup' h a k y)
  from 1(3,4) have pr: "props (objs h' a) k = props (objs h a) k"
    and pt: "proto (objs h' a) = proto (objs h a)"
    unfolding agree_def by blast+
  show ?case
  proof (cases "props (objs h a) k")
    case (Some x)
    with 1(2) have "x = y" by simp
    with Some pr show ?thesis by (simp add: lookup_own)
  next
    case None
    show ?thesis
    proof (cases "\<exists>p. proto (objs h a) = Ref p")
      case True
      then obtain p where p: "proto (objs h a) = Ref p" by blast
      with None 1(2) have "lookup' h p k = Some y" by simp
      moreover from p 1(3,4) have "p \<in> S" unfolding agree_def by blast
      ultimately have "lookup h' p k = Some y" using 1(1,4) by blast
      with None p pr pt show ?thesis by (simp add: lookup_step)
    next
      case False
      with None 1(2) have "y = Undefined" by (simp split: val.splits)
      with None False pr pt show ?thesis by (simp add: lookup_end)
    qed
  qed
qed

lemma lookup_agree:
  assumes "b \<in> S" "agree S k h h'"
  shows "lookup h' b k = lookup h b k"
proof (cases "lookup h b k")
  case (Some v)
  from lookup_agree_le [OF Some assms] Some show ?thesis by simp
next
  case None
  show ?thesis
  proof (cases "lookup h' b k")
    case (Some v)
    from lookup_agree_le [OF Some assms(1) agree_sym [OF assms(2)]] None show ?thesis by simp
  qed (simp add: None)
qed

lemma get_agree:
  assumes "agree UNIV k h h'"
  shows "get h' v k = get h v k"
  by (cases v) (simp_all add: get_def lookup_agree [OF UNIV_I assms])

lemma get_updProp_other:
  "k \<noteq> k' \<Longrightarrow> get (updProp h a k' x) v k = get h v k"
  by (rule get_agree) (simp add: agree_def updProp_def)

lemma get_updProp_same: "get (updProp h a k x) (Ref a) k = Inr x"
  by (simp add: get_def returned_def lookup_own updProp_def)

lemma unwrap_updProp: "unwrap (updProp h a KappliedTrait x) v = unwrap h v"
  by (simp add: unwrap_def get_updProp_other)

lemma applyWith_Inr:
  assumes "applyWith run B T h = (Inr app, h')"
  shows "\<exists>h1 a u. run B h = (Inr app, h1) \<and> get h1 app Kprototype = Inr (Ref a)
           \<and> unwrap h1 T = Inr u \<and> h' = updProp h1 a KappliedTrait u"
  using assms
  by (auto simp: applyWith_def split: prod.splits sum.splits dest!: setProp_Inr)


subsection \<open>The decorators keep their behaviour\<close>

lemma setPrototypeOf_code:
  "setPrototypeOf h v p = (r, h') \<Longrightarrow> nxt h' = nxt h \<and> code (objs h' a) = code (objs h a)"
  by (auto simp: setPrototypeOf_def split: if_splits val.splits sum.splits bool.splits)

lemma setProp_code:
  "setProp h v k x = (r, h') \<Longrightarrow> nxt h' = nxt h \<and> code (objs h' a) = code (objs h a)"
  by (auto simp: setProp_def split: if_splits val.splits)

lemma wrap_code:
  assumes "wrap T W h = (Inr r, h')"
  shows "r = W \<and> nxt h' = nxt h \<and> code (objs h' a) = code (objs h a)"
proof -
  from assms obtain u h1 where sp: "setPrototypeOf h W T = (Inr u, h1)"
    by (auto simp: wrap_def split: prod.splits sum.splits)
  from setPrototypeOf_code [OF sp] have 1: "nxt h1 = nxt h" "code (objs h1 a) = code (objs h a)"
    by simp_all
  from assms sp obtain w where g: "get h1 T KwrappedTrait = Inr w"
    by (auto simp: wrap_def split: sum.splits)
  show ?thesis
  proof (cases "truthy w")
    case True
    with assms sp g 1 show ?thesis by (simp add: wrap_def)
  next
    case False
    with assms sp g obtain u' where s2: "setProp h1 T KwrappedTrait T = (Inr u', h')" and "r = W"
      by (auto simp: wrap_def split: prod.splits sum.splits)
    from setProp_code [OF s2, of a] 1 \<open>r = W\<close> show ?thesis by simp
  qed
qed

lemma newFunction_wrap:
  assumes "newFunction c h = (w, h1)" "wrap T (Ref w) h1 = (Inr r, h2)"
  shows "r = Ref (nxt h) \<and> nxt h2 = Suc (nxt h) \<and> code_of h2 r = c"
proof -
  from assms(1) have w: "w = nxt h" "nxt h1 = Suc (nxt h)" "code (objs h1 w) = c"
    by (auto simp: newFunction_def alloc_def)
  from wrap_code [OF assms(2), of w] w show ?thesis
    by (simp add: code_of_def)
qed

lemma Dedupe_code:
  assumes "Dedupe T h = (Inr d, h')"
  shows "d = Ref (nxt h) \<and> nxt h' = Suc (nxt h) \<and> code_of h' d = DedupeFn T (code_of h T)"
  using assms unfolding Dedupe_def
  by (auto split: prod.splits dest: newFunction_wrap)

lemma defineProperty_code:
  "defineProperty h v k x = (r, h') \<Longrightarrow> nxt h' = nxt h \<and> code (objs h' a) = code (objs h a)"
  by (auto simp: defineProperty_def split: if_splits val.splits option.splits)

lemma HasInstance_code:
  assumes "HasInstance d h = (Inr r, h')" "d = Ref a" "a < nxt h"
  shows "r = d \<and> code_of h' d = code_of h d"
proof -
  from assms(1) obtain prior where g: "get h d KhasInstance = Inr prior"
    by (auto simp: HasInstance_def split: sum.splits)
  obtain f h1 where 1: "newFunction (HasInstanceFn (code_of h prior) d) h = (f, h1)"
    by (cases "newFunction (HasInstanceFn (code_of h prior) d) h")
  from assms(1) g 1 obtain u where
    2: "defineProperty h1 d KhasInstance (Ref f) = (Inr u, h')" and 3: "r = d"
    by (auto simp: HasInstance_def split: sum.splits prod.splits)
  from 1 assms(2,3) have "code (objs h1 a) = code (objs h a)"
    by (auto simp: newFunction_def alloc_def)
  with defineProperty_code [OF 2, of a] 3 assms(2) show ?thesis
    by (simp add: code_of_def)
qed

lemma Trait_code:
  assumes "Trait f h = (Inr t, h')"
  shows "\<exists>T c. code_of h' t = DedupeFn T c"
proof -
  from assms obtain c h2 d h3 where
    dd: "Dedupe c h2 = (Inr d, h3)" and hi: "HasInstance d h3 = (Inr t, h')"
    by (auto simp: Trait_def split: prod.splits sum.splits)
  from Dedupe_code [OF dd] have d: "d = Ref (nxt h2)" and n: "nxt h3 = Suc (nxt h2)"
    and c: "code_of h3 d = DedupeFn c (code_of h2 c)" by blast+
  from n have "nxt h2 < nxt h3" by simp
  from HasInstance_code [OF hi d this] c show ?thesis by auto
qed

lemma DedupeBody_absent:
  "DedupeBody run T Null h = (Inl TypeError, h)" "DedupeBody run T Undefined h = (Inl TypeError, h)"
  by (simp_all add: DedupeBody_def get_def)

subsection \<open>Dedupe\<close>

text \<open>
  Claim C6.  Let \<open>d\<close> be the function returned by \<^verbatim>\<open>Dedupe(T)\<close>, called with a base
  \<open>B\<close> whose \<^verbatim>\<open>prototype\<close> is \<open>pr\<close>.  When \<^verbatim>\<open>expresses(pr, T)\<close> is true the call
  returns \<open>B\<close> itself and leaves the heap and the log of invocations as they are, so
  \<open>T\<close> is not invoked; when it is false the call is the call \<^verbatim>\<open>T(B)\<close>.
\<close>

theorem Dedupe_idempotent:
  assumes "Dedupe T h0 = (Inr d, h1)" and "code_of h d = code_of h1 d"
    and "get h B Kprototype = Inr pr"
  shows "(expresses h pr T = Inr True \<longrightarrow> invoke \<Gamma> d B h = (Inr B, h))
       \<and> (expresses h pr T = Inr False \<longrightarrow> invoke \<Gamma> d B h = call \<Gamma> (code_of h0 T) B h)"
proof -
  from Dedupe_code [OF assms(1)] have "code_of h1 d = DedupeFn T (code_of h0 T)"
    by blast
  with assms(2) have "code_of h d = DedupeFn T (code_of h0 T)"
    by simp
  then show ?thesis
    using assms(3) by (simp add: invoke_def DedupeBody_def)
qed

theorem Dedupe_idempotent_witness:
  "Dedupe (Ref 7) bareHeap = (Inr (Ref 8), dedupeHeap)
   \<and> get dedupeHeap (Ref ObjectCtor) Kprototype = Inr (Ref objectProto)
   \<and> expresses dedupeHeap (Ref objectProto) (Ref 7) = Inr False
   \<and> invoke testEnv (Ref 8) (Ref ObjectCtor) dedupeHeap
       = call testEnv (code_of bareHeap (Ref 7)) (Ref ObjectCtor) dedupeHeap
   \<and> get dedupeHeap2 (Ref 10) Kprototype = Inr (Ref 9)
   \<and> expresses dedupeHeap2 (Ref 9) (Ref 7) = Inr True
   \<and> invoke testEnv (Ref 8) (Ref 10) dedupeHeap2 = (Inr (Ref 10), dedupeHeap2)"
proof -
  have "fst (Dedupe (Ref 7) bareHeap) = Inr (Ref 8)" by code_simp
  then have d: "Dedupe (Ref 7) bareHeap = (Inr (Ref 8), dedupeHeap)"
    by (simp add: dedupeHeap_def prod_eq_iff)
  have p1: "get dedupeHeap (Ref ObjectCtor) Kprototype = Inr (Ref objectProto)" by code_simp
  have e1: "expresses dedupeHeap (Ref objectProto) (Ref 7) = Inr False" by code_simp
  have c2: "code_of dedupeHeap2 (Ref 8) = code_of dedupeHeap (Ref 8)" by code_simp
  have p2: "get dedupeHeap2 (Ref 10) Kprototype = Inr (Ref 9)" by code_simp
  have e2: "expresses dedupeHeap2 (Ref 9) (Ref 7) = Inr True" by code_simp
  from Dedupe_idempotent [OF d refl p1, of testEnv] e1
  have "invoke testEnv (Ref 8) (Ref ObjectCtor) dedupeHeap
       = call testEnv (code_of bareHeap (Ref 7)) (Ref ObjectCtor) dedupeHeap" by simp
  moreover from Dedupe_idempotent [OF d c2 p2, of testEnv] e2
  have "invoke testEnv (Ref 8) (Ref 10) dedupeHeap2 = (Inr (Ref 10), dedupeHeap2)" by simp
  ultimately show ?thesis using d p1 e1 p2 e2 by simp
qed


subsection \<open>An absent base\<close>

text \<open>
  Claim C10.  The function returned by \<^verbatim>\<open>Dedupe(f)\<close>, and the function returned by
  \<^verbatim>\<open>Trait(f)\<close>, throw a \<^verbatim>\<open>TypeError\<close> when they are called with \<^verbatim>\<open>null\<close> or
  \<^verbatim>\<open>undefined\<close>, on every heap on which they still are the functions that were created,
  and they change nothing.  The builder replaces \<^verbatim>\<open>null\<close> and \<^verbatim>\<open>undefined\<close> by a
  class of its own.
\<close>

theorem decorated_trait_absent_base:
  "(Dedupe f h0 = (Inr d, h1) \<and> code_of h d = code_of h1 d \<longrightarrow>
      invoke \<Gamma> d Null h = (Inl TypeError, h) \<and> invoke \<Gamma> d Undefined h = (Inl TypeError, h))
   \<and> (Trait g k0 = (Inr t, k1) \<and> code_of k t = code_of k1 t \<longrightarrow>
      invoke \<Gamma> t Null k = (Inl TypeError, k) \<and> invoke \<Gamma> t Undefined k = (Inl TypeError, k))
   \<and> (\<exists>c h'. newTraitBuilder Null h = (\<lparr>superclass = Ref c\<rparr>, h'))
   \<and> (\<exists>c h'. newTraitBuilder Undefined h = (\<lparr>superclass = Ref c\<rparr>, h'))"
proof -
  have "invoke \<Gamma> d Null h = (Inl TypeError, h) \<and> invoke \<Gamma> d Undefined h = (Inl TypeError, h)"
    if "Dedupe f h0 = (Inr d, h1)" "code_of h d = code_of h1 d"
  proof -
    from Dedupe_code [OF that(1)] have "code_of h1 d = DedupeFn f (code_of h0 f)"
      by blast
    with that(2) show ?thesis
      by (simp add: invoke_def DedupeBody_absent)
  qed
  moreover
  have "invoke \<Gamma> t Null k = (Inl TypeError, k) \<and> invoke \<Gamma> t Undefined k = (Inl TypeError, k)"
    if "Trait g k0 = (Inr t, k1)" "code_of k t = code_of k1 t"
  proof -
    from Trait_code [OF that(1)] obtain T c where "code_of k1 t = DedupeFn T c"
      by blast
    with that(2) show ?thesis
      by (simp add: invoke_def DedupeBody_absent)
  qed
  moreover
  have "\<exists>c h'. newTraitBuilder v h = (\<lparr>superclass = Ref c\<rparr>, h')" if "\<not> truthy v" for v
    using that by (simp add: newTraitBuilder_def classBase_def newClass_def alloc_def)
  ultimately show ?thesis by simp
qed

theorem decorated_trait_absent_base_witness:
  "(\<exists>h1. Dedupe (Ref 5) testHeap = (Inr (Ref 7), h1)
      \<and> invoke testEnv (Ref 7) Null h1 = (Inl TypeError, h1)
      \<and> invoke testEnv (Ref 7) Undefined h1 = (Inl TypeError, h1))
   \<and> (\<exists>k1. Trait (Ref 5) testHeap = (Inr (Ref 9), k1)
      \<and> invoke testEnv (Ref 9) Null k1 = (Inl TypeError, k1)
      \<and> invoke testEnv (Ref 9) Undefined k1 = (Inl TypeError, k1))"
proof -
  define h1 where "h1 = snd (Dedupe (Ref 5) testHeap)"
  define k1 where "k1 = snd (Trait (Ref 5) testHeap)"
  have "fst (Dedupe (Ref 5) testHeap) = Inr (Ref 7)" by code_simp
  then have d: "Dedupe (Ref 5) testHeap = (Inr (Ref 7), h1)"
    by (simp add: h1_def prod_eq_iff)
  have "fst (Trait (Ref 5) testHeap) = Inr (Ref 9)" by code_simp
  then have t: "Trait (Ref 5) testHeap = (Inr (Ref 9), k1)"
    by (simp add: k1_def prod_eq_iff)
  from decorated_trait_absent_base
    [where f = "Ref 5" and ?h0.0 = testHeap and d = "Ref 7" and ?h1.0 = h1 and h = h1
       and g = "Ref 5" and ?k0.0 = testHeap and t = "Ref 9" and ?k1.0 = k1 and k = k1
       and \<Gamma> = testEnv]
  show ?thesis using d t by simp
qed

subsection \<open>Cached\<close>

lemma Cached_code:
  assumes "Cached T h = (Inr w, h')"
  shows "w = Ref (nxt h) \<and> nxt h' = Suc (nxt h) \<and> code_of h' w = CachedFn T (code_of h T)"
  using assms unfolding Cached_def
  by (auto split: prod.splits dest: newFunction_wrap)

lemma mapSet_Ref: "mapSet h (Ref a) k v = (Inr (), updMap h a k v)"
  by (simp add: mapSet_def updMap_def)

lemma mapGet_Inr: "mapGet h m k = Inr x \<Longrightarrow> \<exists>a. m = Ref a"
  by (auto simp: mapGet_def split: val.splits)

lemma get_updMap: "get (updMap h a k' x) v k = get h v k"
  by (rule get_agree) (simp add: agree_def updMap_def)

lemma mapGet_updMap_same: "mapGet (updMap h a k x) (Ref a) k = Inr x"
  by (simp add: mapGet_def updMap_def)

lemma log_updMap: "log (updMap h a k x) = log h"
  by (simp add: updMap_def)

lemma cacheOf_hit: "get h B KcachedApplications = Inr m \<Longrightarrow> truthy m \<Longrightarrow> cacheOf B h = (Inr m, h)"
  by (simp add: cacheOf_def)

lemma cacheOf_log: "cacheOf B h = (r, h') \<Longrightarrow> log h' = log h"
  by (auto simp: cacheOf_def alloc_def setProp_def split: sum.splits if_splits prod.splits val.splits)

lemma CachedBody_miss:
  assumes "cacheOf B h = (Inr m, ha)" "mapGet ha m T = Inr x" "\<not> truthy x"
  shows "CachedBody run T B h =
     (case run B ha of
        (Inl e, hb) \<Rightarrow> (Inl e, hb)
      | (Inr app, hb) \<Rightarrow> (Inr app, snd (mapSet hb m T app)))"
proof -
  from mapGet_Inr [OF assms(2)] obtain a where "m = Ref a" by blast
  with assms show ?thesis
    by (auto simp: CachedBody_def mapSet_Ref split: prod.splits sum.splits)
qed

lemma CachedBody_hit:
  assumes "get h B KcachedApplications = Inr (Ref a)" "mapGet h (Ref a) T = Inr app" "truthy app"
  shows "CachedBody run T B h = (Inr app, h)"
  using assms by (simp add: CachedBody_def cacheOf_hit)

text \<open>
  A miss followed by a hit.  Let \<open>w\<close> be the function returned by \<^verbatim>\<open>Cached(T)\<close>; its
  behaviour is the caching closure around \<open>T\<close>.  Take a base \<open>B\<close> whose cache \<open>m\<close>
  (found or just created) has no entry for \<open>T\<close>, and let the call \<^verbatim>\<open>T(B)\<close> return a
  class \<open>app\<close> and leave the cache reference of \<open>B\<close> in place.  Then the first call of
  \<open>w\<close> on \<open>B\<close> returns \<open>app\<close>, and the second call returns the same \<open>app\<close>, changes
  nothing and does not depend on the user functions.
\<close>

lemma Cached_idempotent:
  assumes "Cached T h0 = (Inr w, h1)" and "c = code_of h0 T"
    and "cacheOf B h = (Inr m, ha)" and "mapGet ha m T = Inr x" and "\<not> truthy x"
    and "call \<Gamma> c B ha = (Inr app, hb)" and "truthy app"
    and "get hb B KcachedApplications = Inr m"
  shows "code_of h1 w = CachedFn T c
       \<and> (\<exists>h'. call \<Gamma> (CachedFn T c) B h = (Inr app, h')
              \<and> (\<forall>\<Gamma>'. call \<Gamma>' (CachedFn T c) B h' = (Inr app, h'))
              \<and> log h' = log hb
              \<and> (\<forall>n. c = Raw n \<longrightarrow> log h' = n # log h))"
proof -
  from Cached_code [OF assms(1)] assms(2) have c: "code_of h1 w = CachedFn T c"
    by blast
  from mapGet_Inr [OF assms(4)] obtain a where m: "m = Ref a" by blast
  define h' where "h' = updMap hb a T app"
  have 1: "call \<Gamma> (CachedFn T c) B h = (Inr app, h')"
    using CachedBody_miss [OF assms(3,4,5)] assms(6)
    by (simp add: m mapSet_Ref h'_def)
  have "get h' B KcachedApplications = Inr (Ref a)"
    using assms(8) by (simp add: h'_def get_updMap m)
  moreover have "mapGet h' (Ref a) T = Inr app"
    by (simp add: h'_def mapGet_updMap_same)
  ultimately have 2: "call \<Gamma>' (CachedFn T c) B h' = (Inr app, h')" for \<Gamma>'
    using assms(7) by (simp add: CachedBody_hit)
  have 3: "log h' = log hb"
    by (simp add: h'_def log_updMap)
  have 4: "log h' = n # log h" if "c = Raw n" for n
  proof -
    from assms(6) that have "log hb = n # log ha"
      by (auto split: prod.splits)
    with cacheOf_log [OF assms(3)] 3 show ?thesis by simp
  qed
  from c 1 2 3 4 show ?thesis by blast
qed

text \<open>
  Claim C3.  The closure reads the cache with \<^verbatim>\<open>superclass[_cachedApplications]\<close>, a
  lookup that follows the prototype chain of the constructor, so a base finds the entries of
  the classes it extends.  The class \<open>B\<close> that \<^verbatim>\<open>Cached(T)(Object)\<close> returned has
  \<^verbatim>\<open>Object\<close> as the prototype of its constructor: \<^verbatim>\<open>Cached(T)(B)\<close> finds the map of
  \<^verbatim>\<open>Object\<close> and returns \<open>B\<close> itself with the heap as it was, at every call, so \<open>T\<close> is
  never invoked for \<open>B\<close>, \<open>B\<close> gets no cache of its own, and what is returned is no class
  derived from \<open>B\<close>.  In the same way, after \<^verbatim>\<open>Cached(T)(B1)\<close>, every call
  \<^verbatim>\<open>Cached(T)(B2)\<close> for \<^verbatim>\<open>class B2 extends B1 {}\<close> returns the class made for \<open>B1\<close>
  with the heap as it was.  In both heaps the one invocation in the log is that of the first
  application, to \<^verbatim>\<open>Object\<close> and to \<open>B1\<close>.
\<close>

theorem Cached_inherited_entry:
  "code_of cachedHeap (Ref 7) = CachedFn (Ref 5) (Raw 0)
   \<and> invoke testEnv (Ref 7) (Ref ObjectCtor) cachedHeap = (Inr (Ref 10), appliedHeap)
   \<and> proto (objs appliedHeap 10) = Ref ObjectCtor
   \<and> log appliedHeap = [0]
   \<and> invoke testEnv (Ref 7) (Ref 10) appliedHeap = (Inr (Ref 10), appliedHeap)
   \<and> hasOwnProperty appliedHeap (Ref 10) KcachedApplications = Inr False
   \<and> invoke testEnv (Ref 7) (Ref 9) subclassHeap = (Inr (Ref 14), subclassAppliedHeap)
   \<and> proto (objs subclassAppliedHeap 11) = Ref 9
   \<and> log subclassAppliedHeap = [0]
   \<and> invoke testEnv (Ref 7) (Ref 11) subclassAppliedHeap = (Inr (Ref 14), subclassAppliedHeap)
   \<and> proto (objs subclassAppliedHeap 14) = Ref 9"
proof -
  have 0: "code_of cachedHeap (Ref 7) = CachedFn (Ref 5) (Raw 0)" by code_simp
  have "fst (invoke testEnv (Ref 7) (Ref ObjectCtor) cachedHeap) = Inr (Ref 10)" by code_simp
  then have 1: "invoke testEnv (Ref 7) (Ref ObjectCtor) cachedHeap = (Inr (Ref 10), appliedHeap)"
    by (simp add: appliedHeap_def prod_eq_iff)
  have 2: "proto (objs appliedHeap 10) = Ref ObjectCtor" by code_simp
  have 3: "log appliedHeap = [0]" by code_simp
  have g: "get appliedHeap (Ref 10) KcachedApplications = Inr (Ref 8)" by code_simp
  have m: "mapGet appliedHeap (Ref 8) (Ref 5) = Inr (Ref 10)" by code_simp
  have c: "code_of appliedHeap (Ref 7) = CachedFn (Ref 5) (Raw 0)" by code_simp
  from CachedBody_hit [OF g m] c
  have 4: "invoke testEnv (Ref 7) (Ref 10) appliedHeap = (Inr (Ref 10), appliedHeap)"
    by (simp add: invoke_def)
  have 5: "hasOwnProperty appliedHeap (Ref 10) KcachedApplications = Inr False" by code_simp
  have "fst (invoke testEnv (Ref 7) (Ref 9) subclassHeap) = Inr (Ref 14)" by code_simp
  then have 6: "invoke testEnv (Ref 7) (Ref 9) subclassHeap = (Inr (Ref 14), subclassAppliedHeap)"
    by (simp add: subclassAppliedHeap_def prod_eq_iff)
  have 7: "proto (objs subclassAppliedHeap 11) = Ref 9" by code_simp
  have 8: "log subclassAppliedHeap = [0]" by code_simp
  have g': "get subclassAppliedHeap (Ref 11) KcachedApplications = Inr (Ref 12)" by code_simp
  have m': "mapGet subclassAppliedHeap (Ref 12) (Ref 5) = Inr (Ref 14)" by code_simp
  have c': "code_of subclassAppliedHeap (Ref 7) = CachedFn (Ref 5) (Raw 0)" by code_simp
  from CachedBody_hit [OF g' m'] c'
  have 9: "invoke testEnv (Ref 7) (Ref 11) subclassAppliedHeap = (Inr (Ref 14), subclassAppliedHeap)"
    by (simp add: invoke_def)
  have 10: "proto (objs subclassAppliedHeap 14) = Ref 9" by code_simp
  from 0 1 2 3 4 5 6 7 8 9 10 show ?thesis by blast
qed

subsection \<open>Exceptions of the trait\<close>

text \<open>
  Claim C9.  An exception of the trait function leaves \<^verbatim>\<open>apply\<close> as it is, with the heap
  that the trait function left.  The same holds for the caching closure on a base without
  an entry for the trait: the heap is the one the throwing call left, so nothing has been
  stored.  When that heap still has the cache of the base and no entry for the trait, the
  next call of the closure invokes the trait function again and returns its result; for
  user function \<open>n\<close> the log then shows two invocations.
\<close>

theorem trait_error_propagates:
  "(invoke \<Gamma> T B h = (Inl e, h1) \<longrightarrow> applyFn \<Gamma> B T h = (Inl e, h1))
   \<and> (cacheOf B' k = (Inr m, ka) \<and> mapGet ka m T' = Inr x \<and> \<not> truthy x
        \<and> call \<Gamma> c B' ka = (Inl e', kb) \<longrightarrow>
      call \<Gamma> (CachedFn T' c) B' k = (Inl e', kb)
      \<and> (get kb B' KcachedApplications = Inr m \<and> mapGet kb m T' = Inr y \<and> \<not> truthy y
           \<and> call \<Gamma> c B' kb = (Inr app, kc) \<longrightarrow>
         (\<exists>k'. call \<Gamma> (CachedFn T' c) B' kb = (Inr app, k') \<and> log k' = log kc
               \<and> (\<forall>n. c = Raw n \<longrightarrow> log k' = n # n # log k))))"
proof -
  have a: "applyFn \<Gamma> B T h = (Inl e, h1)" if "invoke \<Gamma> T B h = (Inl e, h1)"
    using that by (simp add: applyFn_def applyWith_def)
  have b: "call \<Gamma> (CachedFn T' c) B' k = (Inl e', kb)"
    if "cacheOf B' k = (Inr m, ka)" "mapGet ka m T' = Inr x" "\<not> truthy x"
       "call \<Gamma> c B' ka = (Inl e', kb)"
    using CachedBody_miss [OF that(1,2,3)] that(4) by simp
  have c: "\<exists>k'. call \<Gamma> (CachedFn T' c) B' kb = (Inr app, k') \<and> log k' = log kc
               \<and> (\<forall>n. c = Raw n \<longrightarrow> log k' = n # n # log k)"
    if "cacheOf B' k = (Inr m, ka)" "call \<Gamma> c B' ka = (Inl e', kb)"
       "get kb B' KcachedApplications = Inr m" "mapGet kb m T' = Inr y" "\<not> truthy y"
       "call \<Gamma> c B' kb = (Inr app, kc)"
  proof -
    from mapGet_Inr [OF that(4)] obtain a where m: "m = Ref a" by blast
    from that(3) have "cacheOf B' kb = (Inr m, kb)"
      by (simp add: cacheOf_hit m)
    from CachedBody_miss [OF this that(4,5)] that(6)
    have 1: "call \<Gamma> (CachedFn T' c) B' kb = (Inr app, updMap kc a T' app)"
      by (simp add: m mapSet_Ref)
    have 2: "log (updMap kc a T' app) = n # n # log k" if "c = Raw n" for n
    proof -
      from \<open>call \<Gamma> c B' ka = (Inl e', kb)\<close> that have "log kb = n # log ka"
        by (auto split: prod.splits)
      moreover from \<open>call \<Gamma> c B' kb = (Inr app, kc)\<close> that have "log kc = n # log kb"
        by (auto split: prod.splits)
      ultimately show ?thesis
        using cacheOf_log [OF \<open>cacheOf B' k = (Inr m, ka)\<close>] by (simp add: log_updMap)
    qed
    from 1 2 show ?thesis by (auto simp: log_updMap)
  qed
  from a b c show ?thesis by blast
qed


theorem trait_error_propagates_witness:
  "(\<exists>h1. invoke testEnv (Ref 6) (Ref ObjectCtor) testHeap = (Inl (Thrown 7), h1)
        \<and> applyFn testEnv (Ref ObjectCtor) (Ref 6) testHeap = (Inl (Thrown 7), h1))
   \<and> (\<exists>kb. call testEnv (CachedFn (Ref 7) (Raw 3)) (Ref ObjectCtor) flakyHeap = (Inl (Thrown 7), kb)
        \<and> mapGet kb (Ref 9) (Ref 7) = Inr Undefined
        \<and> (\<exists>k'. call testEnv (CachedFn (Ref 7) (Raw 3)) (Ref ObjectCtor) kb = (Inr (Ref 11), k')
              \<and> log k' = [3, 3]))"
proof -
  define h1 where "h1 = snd (invoke testEnv (Ref 6) (Ref ObjectCtor) testHeap)"
  define ka where "ka = snd (cacheOf (Ref ObjectCtor) flakyHeap)"
  define kb where "kb = snd (call testEnv (Raw 3) (Ref ObjectCtor) ka)"
  define kc where "kc = snd (call testEnv (Raw 3) (Ref ObjectCtor) kb)"
  have "fst (invoke testEnv (Ref 6) (Ref ObjectCtor) testHeap) = Inl (Thrown 7)" by code_simp
  then have 1: "invoke testEnv (Ref 6) (Ref ObjectCtor) testHeap = (Inl (Thrown 7), h1)"
    by (simp add: h1_def prod_eq_iff)
  have "fst (cacheOf (Ref ObjectCtor) flakyHeap) = Inr (Ref 9)" by code_simp
  then have 2: "cacheOf (Ref ObjectCtor) flakyHeap = (Inr (Ref 9), ka)"
    by (simp add: ka_def prod_eq_iff)
  have 3: "mapGet ka (Ref 9) (Ref 7) = Inr Undefined"
    unfolding ka_def by code_simp
  have "fst (call testEnv (Raw 3) (Ref ObjectCtor) ka) = Inl (Thrown 7)"
    unfolding ka_def by code_simp
  then have 4: "call testEnv (Raw 3) (Ref ObjectCtor) ka = (Inl (Thrown 7), kb)"
    by (simp add: kb_def prod_eq_iff)
  have 5: "get kb (Ref ObjectCtor) KcachedApplications = Inr (Ref 9)"
    unfolding kb_def ka_def by code_simp
  have 6: "mapGet kb (Ref 9) (Ref 7) = Inr Undefined"
    unfolding kb_def ka_def by code_simp
  have "fst (call testEnv (Raw 3) (Ref ObjectCtor) kb) = Inr (Ref 11)"
    unfolding kb_def ka_def by code_simp
  then have 7: "call testEnv (Raw 3) (Ref ObjectCtor) kb = (Inr (Ref 11), kc)"
    by (simp add: kc_def prod_eq_iff)
  have 8: "log flakyHeap = []" by code_simp
  from trait_error_propagates
    [where \<Gamma> = testEnv and T = "Ref 6" and B = "Ref ObjectCtor" and h = testHeap
       and e = "Thrown 7" and ?h1.0 = h1 and B' = "Ref ObjectCtor" and k = flakyHeap
       and m = "Ref 9" and ka = ka and T' = "Ref 7" and x = Undefined and c = "Raw 3"
       and e' = "Thrown 7" and kb = kb and y = Undefined and app = "Ref 11" and kc = kc]
  show ?thesis using 1 2 3 4 5 6 7 8 by auto
qed


subsection \<open>The builder\<close>

lemma reduceTraits_snoc:
  "reduceTraits \<Gamma> B (ts @ [t]) h =
     (case reduceTraits \<Gamma> B ts h of
        (Inl e, h1) \<Rightarrow> (Inl e, h1)
      | (Inr c, h1) \<Rightarrow> invoke \<Gamma> t c h1)"
proof (induction ts arbitrary: B h)
  case Nil
  show ?case by (simp split: prod.splits sum.splits)
next
  case (Cons a ts)
  show ?case by (simp add: Cons.IH split: prod.splits sum.splits)
qed

lemma reduceTraits_nested: "reduceTraits \<Gamma> B ts h = nested \<Gamma> B ts h"
proof (induction ts rule: rev_induct)
  case Nil
  show ?case by (simp add: nested_def)
next
  case (snoc t ts)
  then show ?case by (simp add: reduceTraits_snoc nested_def)
qed

text \<open>
  Claim C7.  For a class \<open>B\<close> the builder keeps \<open>B\<close>, and \<^verbatim>\<open>expressing(T1, ..., Tn)\<close>
  is the nested application \<^verbatim>\<open>Tn(...(T2(T1(B))))\<close>, with the heap threaded from the
  innermost call outwards and the first exception ending it.  For \<^verbatim>\<open>undefined\<close> and
  \<^verbatim>\<open>null\<close> the builder starts from a class it creates: two new objects, the
  constructor and its empty prototype below \<^verbatim>\<open>Object.prototype\<close>; \<^verbatim>\<open>traits(...)\<close>
  is the nested application to that class.
\<close>

theorem expressing_nested:
  "superclassFn (Ref b) h = (\<lparr>superclass = Ref b\<rparr>, h)
   \<and> expressing \<Gamma> \<lparr>superclass = Ref b\<rparr> ts h = nested \<Gamma> (Ref b) ts h
   \<and> superclassFn Undefined h = (\<lparr>superclass = fst (classBase h)\<rparr>, snd (classBase h))
   \<and> superclassFn Null h = (\<lparr>superclass = fst (classBase h)\<rparr>, snd (classBase h))
   \<and> traits \<Gamma> ts h = nested \<Gamma> (fst (classBase h)) ts (snd (classBase h))
   \<and> fst (classBase h) = Ref (Suc (nxt h))
   \<and> get (snd (classBase h)) (fst (classBase h)) Kprototype = Inr (Ref (nxt h))
   \<and> objs (snd (classBase h)) (nxt h) = blank (Ref objectProto)
   \<and> nxt (snd (classBase h)) = Suc (Suc (nxt h))"
proof -
  have 1: "superclassFn (Ref b) h = (\<lparr>superclass = Ref b\<rparr>, h)"
    by (simp add: superclassFn_def newTraitBuilder_def)
  have 2: "expressing \<Gamma> \<lparr>superclass = Ref b\<rparr> ts h = nested \<Gamma> (Ref b) ts h"
    by (simp add: expressing_def reduceTraits_nested)
  have 3: "superclassFn v h = (\<lparr>superclass = fst (classBase h)\<rparr>, snd (classBase h))"
    if "\<not> truthy v" for v
    using that by (simp add: superclassFn_def newTraitBuilder_def split: prod.splits)
  have 4: "traits \<Gamma> ts h = nested \<Gamma> (fst (classBase h)) ts (snd (classBase h))"
    by (simp add: traits_def 3 expressing_def reduceTraits_nested)
  have 5: "fst (classBase h) = Ref (Suc (nxt h))"
    "objs (snd (classBase h)) (nxt h) = blank (Ref objectProto)"
    "nxt (snd (classBase h)) = Suc (Suc (nxt h))"
    by (simp_all add: classBase_def newClass_def alloc_def)
  have 6: "get (snd (classBase h)) (fst (classBase h)) Kprototype = Inr (Ref (nxt h))"
    by (simp add: classBase_def newClass_def alloc_def get_def returned_def lookup_own)
  from 1 2 3 [of Undefined] 3 [of Null] 4 5 6 show ?thesis
    by simp
qed

subsection \<open>The cache of a subclass\<close>

text \<open>
  Claim C4.  The cache is read with \<^verbatim>\<open>superclass[_cachedApplications]\<close>, a lookup that
  follows the prototype chain, and the prototype of the constructor \<open>B2\<close> of a subclass is
  the constructor \<open>B1\<close> of its superclass.  After \<^verbatim>\<open>Cached(T)(B1)\<close>, the call
  \<^verbatim>\<open>Cached(T)(B2)\<close> finds the map of \<open>B1\<close> with its entry for \<open>T\<close> and returns the
  class that was made for \<open>B1\<close>: \<open>T\<close> is invoked once, \<open>B2\<close> gets no cache of its own,
  and the class returned extends \<open>B1\<close>, not \<open>B2\<close>.
\<close>

theorem Cached_subclass_shares_application:
  "code_of subclassHeap (Ref 9) = ClassCtor \<and> code_of subclassHeap (Ref 11) = ClassCtor
   \<and> proto (objs subclassHeap 11) = Ref 9
   \<and> (\<exists>h1 h2. invoke testEnv (Ref 7) (Ref 9) subclassHeap = (Inr (Ref 14), h1)
          \<and> invoke testEnv (Ref 7) (Ref 11) h1 = (Inr (Ref 14), h2)
          \<and> log h2 = [0]
          \<and> hasOwnProperty h2 (Ref 11) KcachedApplications = Inr False
          \<and> proto (objs h2 14) = Ref 9)"
proof -
  define h1 where "h1 = snd (invoke testEnv (Ref 7) (Ref 9) subclassHeap)"
  define h2 where "h2 = snd (invoke testEnv (Ref 7) (Ref 11) h1)"
  have a: "code_of subclassHeap (Ref 9) = ClassCtor" "code_of subclassHeap (Ref 11) = ClassCtor"
    "proto (objs subclassHeap 11) = Ref 9"
    by code_simp+
  have "fst (invoke testEnv (Ref 7) (Ref 9) subclassHeap) = Inr (Ref 14)" by code_simp
  then have 1: "invoke testEnv (Ref 7) (Ref 9) subclassHeap = (Inr (Ref 14), h1)"
    by (simp add: h1_def prod_eq_iff)
  have "fst (invoke testEnv (Ref 7) (Ref 11) h1) = Inr (Ref 14)"
    unfolding h1_def by code_simp
  then have 2: "invoke testEnv (Ref 7) (Ref 11) h1 = (Inr (Ref 14), h2)"
    by (simp add: h2_def prod_eq_iff)
  have 3: "log h2 = [0]"
    unfolding h2_def h1_def by code_simp
  have 4: "hasOwnProperty h2 (Ref 11) KcachedApplications = Inr False"
    unfolding h2_def h1_def by code_simp
  have 5: "proto (objs h2 14) = Ref 9"
    unfolding h2_def h1_def by code_simp
  from a 1 2 3 4 5 show ?thesis by blast
qed

subsection \<open>wrap and unwrap\<close>

lemma onChain_reach:
  assumes "(t, w) \<in> (protoRel h)\<^sup>*"
  shows "onChain h (Ref t) w = Some True"
  using assms
proof (induction rule: converse_rtrancl_induct)
  case base
  show ?case by (subst onChain.simps) simp
next
  case (step y z)
  from step(1) have "proto (objs h y) = Ref z" by (simp add: protoRel_def)
  with step(3) show ?case by (subst onChain.simps) simp
qed

lemma agree_setProto:
  assumes "(t, w) \<notin> (protoRel h)\<^sup>*"
  shows "agree {b. (t, b) \<in> (protoRel h)\<^sup>*} k h (h\<lparr>objs := (objs h)(w := (objs h w)\<lparr>proto := p\<rparr>)\<rparr>)"
  unfolding agree_def
proof (intro ballI conjI allI impI)
  fix a assume a: "a \<in> {b. (t, b) \<in> (protoRel h)\<^sup>*}"
  with assms have "a \<noteq> w" by auto
  then show "props (objs (h\<lparr>objs := (objs h)(w := (objs h w)\<lparr>proto := p\<rparr>)\<rparr>) a) k = props (objs h a) k"
    and "proto (objs (h\<lparr>objs := (objs h)(w := (objs h w)\<lparr>proto := p\<rparr>)\<rparr>) a) = proto (objs h a)"
    by simp_all
  fix q assume "proto (objs h a) = Ref q"
  then have "(a, q) \<in> protoRel h" by (simp add: protoRel_def)
  with a show "q \<in> {b. (t, b) \<in> (protoRel h)\<^sup>*}" by auto
qed

lemma setPrototypeOf_Inr:
  assumes "setPrototypeOf h (Ref w) (Ref t) = (Inr u, h1)"
  shows "proto (objs h1 w) = Ref t \<and> props (objs h1 w) = props (objs h w)
       \<and> get h1 (Ref t) k = get h (Ref t) k"
proof (cases "proto (objs h w) = Ref t")
  case True
  with assms show ?thesis by (simp add: setPrototypeOf_def isObject_def)
next
  case False
  with assms have oc: "onChain h (Ref t) w = Some False"
    and h1: "h1 = h\<lparr>objs := (objs h)(w := (objs h w)\<lparr>proto := Ref t\<rparr>)\<rparr>"
    by (auto simp: setPrototypeOf_def isObject_def returned_def
          split: option.splits if_splits bool.splits)
  from oc onChain_reach have "(t, w) \<notin> (protoRel h)\<^sup>*" by fastforce
  have "t \<in> {b. (t, b) \<in> (protoRel h)\<^sup>*}" by simp
  from lookup_agree [OF this agree_setProto [OF \<open>(t, w) \<notin> (protoRel h)\<^sup>*\<close>]]
  have "lookup h1 t k = lookup h t k" by (simp add: h1)
  then show ?thesis by (simp add: h1 get_def)
qed

lemma wrap_Ref:
  assumes "wrap T W h = (Inr r, h')"
  shows "\<exists>t. T = Ref t"
proof -
  from assms obtain u h1 where sp: "setPrototypeOf h W T = (Inr u, h1)"
    and "\<exists>x. get h1 T KwrappedTrait = Inr x"
    by (auto simp: wrap_def split: prod.splits sum.splits)
  then show ?thesis
    by (cases T) (auto simp: setPrototypeOf_def get_def isObject_def split: if_splits)
qed

lemma get_wrapper:
  assumes "props (objs h w) k = None" "proto (objs h w) = Ref t"
  shows "get h (Ref w) k = get h (Ref t) k"
  using assms by (simp add: get_def lookup_step)

lemma lookup_self_loop:
  assumes "props (objs h a) k = None" "proto (objs h a) = Ref a"
  shows "lookup h a k = None"
proof (rule ccontr)
  assume "lookup h a k \<noteq> None"
  then obtain v where v: "lookup h a k = Some v" by auto
  have "props (objs h a) k = None \<Longrightarrow> proto (objs h a) = Ref a \<Longrightarrow> False"
  proof (induct rule: lookup.raw_induct [OF _ v])
    case (1 lookup' h a k y)
    from 1(2,3,4) have "lookup' h a k = Some y" by simp
    from 1(1) [OF this 1(3,4)] show ?case .
  qed
  with assms show False by blast
qed

lemma wrap_unwrap:
  assumes "wrap T (Ref w) h = (Inr r, h')" and "props (objs h w) KwrappedTrait = None"
  shows "r = Ref w \<and> (\<exists>u. unwrap h T = Inr u \<and> unwrap h' T = Inr u \<and> unwrap h' (Ref w) = Inr u)"
proof -
  from wrap_Ref [OF assms(1)] obtain t where T: "T = Ref t" by blast
  from assms(1) obtain u1 h1 where sp: "setPrototypeOf h (Ref w) (Ref t) = (Inr u1, h1)"
    by (auto simp: wrap_def T split: prod.splits sum.splits)
  from setPrototypeOf_Inr [OF sp] have pw: "proto (objs h1 w) = Ref t"
    and ow: "props (objs h1 w) = props (objs h w)"
    and gt: "get h1 (Ref t) KwrappedTrait = get h (Ref t) KwrappedTrait" by blast+
  from assms(1) sp obtain x where gx: "get h1 (Ref t) KwrappedTrait = Inr x"
    by (auto simp: wrap_def T split: sum.splits)
  from ow assms(2) pw have gw: "get h1 (Ref w) KwrappedTrait = Inr x"
    using gx by (simp add: get_wrapper)
  show ?thesis
  proof (cases "truthy x")
    case True
    with assms(1) sp gx have "r = Ref w" "h' = h1" by (simp_all add: wrap_def T)
    with True gx gw gt show ?thesis
      by (simp add: unwrap_def T)
  next
    case False
    with assms(1) sp gx obtain u2 where
      s2: "setProp h1 (Ref t) KwrappedTrait (Ref t) = (Inr u2, h')" and r: "r = Ref w"
      by (auto simp: wrap_def T split: prod.splits sum.splits)
    from setProp_Inr [OF s2] have h': "h' = updProp h1 t KwrappedTrait (Ref t)" by simp
    have ne: "w \<noteq> t"
    proof
      assume "w = t"
      with gx gw pw ow assms(2) have "props (objs h1 t) KwrappedTrait = None" "proto (objs h1 t) = Ref t"
        by simp_all
      then have "lookup h1 t KwrappedTrait = None"
        by (rule lookup_self_loop)
      with gx show False by (simp add: get_def returned_def)
    qed
    have 1: "get h' (Ref t) KwrappedTrait = Inr (Ref t)"
      by (simp add: h' get_updProp_same)
    from ne pw ow assms(2) have "props (objs h' w) KwrappedTrait = None" "proto (objs h' w) = Ref t"
      by (simp_all add: h' updProp_def)
    then have 2: "get h' (Ref w) KwrappedTrait = Inr (Ref t)"
      using 1 by (simp add: get_wrapper)
    from False gx gt have 3: "unwrap h T = Inr (Ref t)"
      by (simp add: unwrap_def T)
    from 1 2 3 r show ?thesis
      by (simp add: unwrap_def T)
  qed
qed

text \<open>
  Claim C5, as amended.  Let \<open>W\<close> be a function without a back-reference of its own.
  When \<^verbatim>\<open>wrap(T, W)\<close> returns, it returns \<open>W\<close>, and \<^verbatim>\<open>unwrap(W)\<close> is the unwrapped
  form \<open>u\<close> of \<open>T\<close>, the same before and after the call.  A second layer
  \<^verbatim>\<open>wrap(W, W2)\<close>, with \<open>W2\<close> again without a back-reference of its own, unwraps to the
  same \<open>u\<close>.  A function on which the lookup of the back-reference finds nothing truthy
  unwraps to itself.
\<close>

theorem wrap_unwrap_roundtrip:
  "(wrap T (Ref w) h = (Inr r, h1) \<and> props (objs h w) KwrappedTrait = None \<longrightarrow>
      r = Ref w
      \<and> (\<exists>u. unwrap h T = Inr u \<and> unwrap h1 T = Inr u \<and> unwrap h1 (Ref w) = Inr u
            \<and> (\<forall>w2 r2 h2. wrap (Ref w) (Ref w2) h1 = (Inr r2, h2)
                    \<and> props (objs h1 w2) KwrappedTrait = None \<longrightarrow>
                  r2 = Ref w2 \<and> unwrap h2 (Ref w2) = Inr u \<and> unwrap h2 (Ref w) = Inr u)))
   \<and> (get k f KwrappedTrait = Inr x \<and> \<not> truthy x \<longrightarrow> unwrap k f = Inr f)"
proof -
  have a: "r = Ref w
      \<and> (\<exists>u. unwrap h T = Inr u \<and> unwrap h1 T = Inr u \<and> unwrap h1 (Ref w) = Inr u
            \<and> (\<forall>w2 r2 h2. wrap (Ref w) (Ref w2) h1 = (Inr r2, h2)
                    \<and> props (objs h1 w2) KwrappedTrait = None \<longrightarrow>
                  r2 = Ref w2 \<and> unwrap h2 (Ref w2) = Inr u \<and> unwrap h2 (Ref w) = Inr u))"
    if 1: "wrap T (Ref w) h = (Inr r, h1)" and 2: "props (objs h w) KwrappedTrait = None"
  proof -
    from wrap_unwrap [OF 1 2] obtain u where r: "r = Ref w" and
      u: "unwrap h T = Inr u" "unwrap h1 T = Inr u" "unwrap h1 (Ref w) = Inr u"
      by blast
    have "r2 = Ref w2 \<and> unwrap h2 (Ref w2) = Inr u \<and> unwrap h2 (Ref w) = Inr u"
      if "wrap (Ref w) (Ref w2) h1 = (Inr r2, h2)" "props (objs h1 w2) KwrappedTrait = None"
      for w2 r2 h2
      using wrap_unwrap [OF that] u(3) by auto
    with r u show ?thesis by blast
  qed
  have b: "unwrap k f = Inr f" if "get k f KwrappedTrait = Inr x" "\<not> truthy x"
    using that by (simp add: unwrap_def)
  from a b show ?thesis by blast
qed

theorem wrap_unwrap_roundtrip_witness:
  "\<exists>h1 h2. wrap (Ref 5) (Ref 6) plainHeap = (Inr (Ref 6), h1)
     \<and> props (objs plainHeap 6) KwrappedTrait = None
     \<and> unwrap plainHeap (Ref 5) = Inr (Ref 5)
     \<and> unwrap h1 (Ref 5) = Inr (Ref 5)
     \<and> unwrap h1 (Ref 6) = Inr (Ref 5)
     \<and> wrap (Ref 6) (Ref 7) h1 = (Inr (Ref 7), h2)
     \<and> props (objs h1 7) KwrappedTrait = None
     \<and> unwrap h2 (Ref 7) = Inr (Ref 5)
     \<and> get plainHeap (Ref 7) KwrappedTrait = Inr Undefined
     \<and> unwrap plainHeap (Ref 7) = Inr (Ref 7)"
proof -
  define h1 where "h1 = snd (wrap (Ref 5) (Ref 6) plainHeap)"
  define h2 where "h2 = snd (wrap (Ref 6) (Ref 7) h1)"
  have "fst (wrap (Ref 5) (Ref 6) plainHeap) = Inr (Ref 6)" by code_simp
  then have 1: "wrap (Ref 5) (Ref 6) plainHeap = (Inr (Ref 6), h1)"
    by (simp add: h1_def prod_eq_iff)
  have 2: "props (objs plainHeap 6) KwrappedTrait = None" by code_simp
  have 3: "unwrap plainHeap (Ref 5) = Inr (Ref 5)" by code_simp
  have "fst (wrap (Ref 6) (Ref 7) h1) = Inr (Ref 7)" unfolding h1_def by code_simp
  then have 4: "wrap (Ref 6) (Ref 7) h1 = (Inr (Ref 7), h2)"
    by (simp add: h2_def prod_eq_iff)
  have 5: "props (objs h1 7) KwrappedTrait = None" unfolding h1_def by code_simp
  have 6: "get plainHeap (Ref 7) KwrappedTrait = Inr Undefined" by code_simp
  from wrap_unwrap_roundtrip
    [where T = "Ref 5" and w = 6 and h = plainHeap and r = "Ref 6" and ?h1.0 = h1
       and k = plainHeap and f = "Ref 7" and x = Undefined]
  have "unwrap h1 (Ref 5) = Inr (Ref 5) \<and> unwrap h1 (Ref 6) = Inr (Ref 5)
      \<and> unwrap h2 (Ref 7) = Inr (Ref 5) \<and> unwrap plainHeap (Ref 7) = Inr (Ref 7)"
    using 1 2 3 4 5 6 by auto
  with 1 2 3 4 5 6 show ?thesis by blast
qed

text \<open>
  The claim as stated, for every wrapper, fails for a wrapper that has a back-reference of
  its own: after \<^verbatim>\<open>wrap(g, x)\<close> and \<^verbatim>\<open>wrap(f, g)\<close> the function \<open>g\<close> unwraps to itself
  and not to \<open>f\<close>, and \<open>x\<close>, two layers above \<open>f\<close>, unwraps to \<open>g\<close>.
\<close>

theorem wrap_shadowed_counterexample:
  "wrap (Ref 5) (Ref 6) shadowHeap = (Inr (Ref 6), snd (wrap (Ref 5) (Ref 6) shadowHeap))
   \<and> unwrap shadowHeap (Ref 5) = Inr (Ref 5)
   \<and> unwrap (snd (wrap (Ref 5) (Ref 6) shadowHeap)) (Ref 5) = Inr (Ref 5)
   \<and> unwrap (snd (wrap (Ref 5) (Ref 6) shadowHeap)) (Ref 6) = Inr (Ref 6)
   \<and> unwrap (snd (wrap (Ref 5) (Ref 6) shadowHeap)) (Ref 7) = Inr (Ref 6)"
proof -
  have "fst (wrap (Ref 5) (Ref 6) shadowHeap) = Inr (Ref 6)" by code_simp
  then have 1: "wrap (Ref 5) (Ref 6) shadowHeap = (Inr (Ref 6), snd (wrap (Ref 5) (Ref 6) shadowHeap))"
    by (simp add: prod_eq_iff)
  have 2: "unwrap shadowHeap (Ref 5) = Inr (Ref 5)" by code_simp
  have 3: "unwrap (snd (wrap (Ref 5) (Ref 6) shadowHeap)) (Ref 5) = Inr (Ref 5)" by code_simp
  have 4: "unwrap (snd (wrap (Ref 5) (Ref 6) shadowHeap)) (Ref 6) = Inr (Ref 6)" by code_simp
  have 5: "unwrap (snd (wrap (Ref 5) (Ref 6) shadowHeap)) (Ref 7) = Inr (Ref 6)" by code_simp
  from 1 2 3 4 5 show ?thesis by blast
qed


subsection \<open>apply and isTraitificationOf\<close>







subsection \<open>expresses\<close>

lemma wellFormed_proto:
  assumes "wellFormed h" "a < nxt h" "proto (objs h a) = Ref p"
  shows "p < nxt h"
proof -
  from assms(1,2) have "allocated h (proto (objs h a))"
    by (simp add: wellFormed_def list_all_iff)
  with assms(3) show ?thesis by (simp add: allocated_def)
qed

lemma wellFormed_prototype:
  assumes "wellFormed h" "a < nxt h" "props (objs h a) Kprototype = Some v"
  shows "allocated h v"
proof -
  from assms(1,2) have "case props (objs h a) Kprototype of Some v \<Rightarrow> allocated h v | None \<Rightarrow> True"
    by (simp add: wellFormed_def list_all_iff)
  with assms(3) show ?thesis by simp
qed

lemma lookup_prototype_allocated:
  assumes "lookup h b k = Some v"
  shows "k = Kprototype \<Longrightarrow> wellFormed h \<Longrightarrow> b < nxt h \<Longrightarrow> allocated h v"
proof (induct rule: lookup.raw_induct [OF _ assms])
  case (1 lookup' h a k y)
  show ?case
  proof (cases "props (objs h a) k")
    case (Some x)
    with 1(2) have "x = y" by simp
    with Some 1(3,4,5) show ?thesis
      by (auto intro: wellFormed_prototype)
  next
    case None
    show ?thesis
    proof (cases "\<exists>p. proto (objs h a) = Ref p")
      case True
      then obtain p where p: "proto (objs h a) = Ref p" by blast
      with None 1(2) have "lookup' h p k = Some y" by simp
      moreover from 1(4,5) p have "p < nxt h" by (rule wellFormed_proto)
      ultimately show ?thesis using 1(1,3,4) by blast
    next
      case False
      with None 1(2) have "y = Undefined" by (simp split: val.splits)
      then show ?thesis by (simp add: allocated_def)
    qed
  qed
qed

lemma agree_alloc:
  assumes "wellFormed h"
  shows "agree {..<nxt h} k h (snd (alloc ob h))"
  using assms
  by (auto simp: agree_def alloc_def dest: wellFormed_proto)

lemma get_alloc:
  assumes "wellFormed h" "a < nxt h"
  shows "get (snd (alloc ob h)) (Ref a) k = get h (Ref a) k"
proof -
  from assms(2) have "a \<in> {..<nxt h}" by simp
  from lookup_agree [OF this agree_alloc [OF assms(1)]] show ?thesis
    by (simp add: get_def)
qed

lemma applyFn_marks:
  assumes "applyFn \<Gamma> B T h = (Inr app, h')"
  shows "\<exists>a u. get h' app Kprototype = Inr (Ref a) \<and> props (objs h' a) KappliedTrait = Some u
           \<and> unwrap h' T = Inr u"
proof -
  from assms obtain h1 a u where
    pr: "get h1 app Kprototype = Inr (Ref a)" and
    un: "unwrap h1 T = Inr u" and
    h': "h' = updProp h1 a KappliedTrait u"
    unfolding applyFn_def by (blast dest: applyWith_Inr)
  have "get h' app Kprototype = Inr (Ref a)"
    using pr by (simp add: h' get_updProp_other)
  moreover have "props (objs h' a) KappliedTrait = Some u"
    by (simp add: h' updProp_def)
  moreover have "unwrap h' T = Inr u"
    using un by (simp add: h' unwrap_updProp)
  ultimately show ?thesis by blast
qed

lemma expresses_stop: "expresses h Null U = Inr False" "expresses h Undefined U = Inr False"
  by (simp_all add: expresses_def expressesLoop.simps)

lemma expresses_found:
  "isTraitificationOf h v U = Inr True \<Longrightarrow> v \<noteq> Null \<Longrightarrow> v \<noteq> Undefined \<Longrightarrow> expresses h v U = Inr True"
  by (simp add: expresses_def expressesLoop.simps)

lemma expresses_next:
  "isTraitificationOf h v U = Inr False \<Longrightarrow> getPrototypeOf h v = Inr p \<Longrightarrow>
     expresses h v U = expresses h p U"
  by (cases "v = Null \<or> v = Undefined")
     (auto simp: expresses_def expressesLoop.simps [of h v] getPrototypeOf_def)


lemma invoke_Ref: "invoke \<Gamma> T B h = (Inr r, h') \<Longrightarrow> \<exists>t. T = Ref t"
  by (cases T) (auto simp: invoke_def code_of_def)

subsection \<open>Instances\<close>

lemma keys_all: "k \<in> set keys"
  by (cases k) (simp_all add: keys_def)

lemma unchanged_obj:
  assumes "unchanged h h'" "a < nxt h"
  shows "proto (objs h' a) = proto (objs h a)" "props (objs h' a) k = props (objs h a) k"
  using assms keys_all [of k] by (auto simp: unchanged_def list_all_iff)

lemma agree_unchanged:
  assumes "wellFormed h" "unchanged h h'"
  shows "agree {..<nxt h} k h h'"
  unfolding agree_def
proof (intro ballI conjI allI impI)
  fix a assume "a \<in> {..<nxt h}"
  then have a: "a < nxt h" by simp
  from unchanged_obj [OF assms(2) a] show "props (objs h' a) k = props (objs h a) k"
    and "proto (objs h' a) = proto (objs h a)" by simp_all
  fix p assume "proto (objs h a) = Ref p"
  with assms(1) a have "p < nxt h" by (rule wellFormed_proto)
  then show "p \<in> {..<nxt h}" by simp
qed

lemma get_unchanged:
  assumes "wellFormed h" "unchanged h h'" "a < nxt h"
  shows "get h' (Ref a) k = get h (Ref a) k"
proof -
  from assms(3) have "a \<in> {..<nxt h}" by simp
  from lookup_agree [OF this agree_unchanged [OF assms(1,2)]] show ?thesis
    by (simp add: get_def)
qed

lemma allocateInstance_Inr:
  assumes "allocateInstance h nt = (Inr i, h')"
  shows "\<exists>pr. get h nt Kprototype = Inr pr \<and> i = Ref (nxt h)
           \<and> h' = snd (alloc (blank (if isObject pr then pr else Ref objectProto)) h)"
  using assms by (auto simp: allocateInstance_def alloc_def split: sum.splits)

lemma unchanged_alloc: "unchanged h (snd (alloc ob h))"
  by (simp add: unchanged_def alloc_def list_all_iff)

lemma allocateInstance_fst: "fst (allocateInstance h nt) = Inr i \<Longrightarrow> isObject i"
  by (auto simp: allocateInstance_def alloc_def isObject_def split: sum.splits)

lemma constructWith_Ref:
  assumes "constructWith \<Gamma> h f nt = Some r"
  shows "\<forall>i. fst r = Inr i \<longrightarrow> isObject i"
proof (induct rule: constructWith.raw_induct [OF _ assms])
  case (1 constructWith' \<Gamma> h f nt r)
  show ?case
  proof (cases f)
    case (Ref a)
    show ?thesis
    proof (cases "code (objs h a)")
      case ClassCtor
      with Ref 1 show ?thesis
        by (auto dest: allocateInstance_fst split: if_splits)
    next
      case (UserCtor n)
      with Ref 1(2) have r: "r = userConstruct \<Gamma> n nt h" by simp
      show ?thesis
        unfolding r userConstruct_def
        by (cases "\<Gamma> n nt h") (auto split: sum.splits)
    next
      case ObjectFn
      with Ref 1(2) show ?thesis
        by (auto dest: allocateInstance_fst)
    qed (use Ref 1(2) in auto)
  qed (use 1(2) in auto)
qed

lemma construct_Ref: "construct \<Gamma> c h = (Inr i, h') \<Longrightarrow> \<exists>b. i = Ref b"
  using constructWith_Ref [of \<Gamma> h c c]
  by (cases i) (auto simp: construct_def isObject_def split: option.splits)

lemma construct_arg_Ref: "construct \<Gamma> c h = (Inr i, h') \<Longrightarrow> \<exists>a. c = Ref a"
  by (cases c) (simp_all add: construct_def constructWith.simps)

lemma allocateInstance_below:
  assumes "allocateInstance h nt = (Inr i, h')" "get h nt Kprototype = Inr (Ref a)"
  shows "unchanged h h' \<and> getPrototypeOf h' i = get h nt Kprototype"
proof -
  from allocateInstance_Inr [OF assms(1)] assms(2) have i: "i = Ref (nxt h)"
    and h': "h' = snd (alloc (blank (Ref a)) h)"
    by (auto simp: isObject_def)
  have "unchanged h h'" unfolding h' by (rule unchanged_alloc)
  moreover have "getPrototypeOf h' i = Inr (Ref a)"
    by (simp add: i h' getPrototypeOf_def alloc_def blank_def)
  ultimately show ?thesis using assms(2) by simp
qed

lemma construct_base:
  assumes "code (objs h a) = ClassCtor \<and> \<not> derived (objs h a) \<or> code (objs h a) = ObjectFn"
  shows "construct \<Gamma> (Ref a) h = allocateInstance h (Ref a)"
  using assms by (auto simp: construct_def constructWith.simps)

lemma construct_derived:
  assumes "code (objs h a) = ClassCtor" "derived (objs h a)" "proto (objs h a) = Ref s"
    and "code (objs h s) = ClassCtor \<and> \<not> derived (objs h s) \<or> code (objs h s) = ObjectFn"
  shows "construct \<Gamma> (Ref a) h = allocateInstance h (Ref a)"
proof -
  from assms(4) have "isConstructor (code_of h (Ref s))"
    by (auto simp: isConstructor_def code_of_def)
  moreover from assms(4) have "constructWith \<Gamma> h (Ref s) (Ref a) = Some (allocateInstance h (Ref a))"
    by (auto simp: constructWith.simps)
  ultimately show ?thesis
    using assms(1,2,3) by (simp add: construct_def constructWith.simps [of \<Gamma> h "Ref a"])
qed

text \<open>
  Claim C2, as amended.  On a well-formed heap, let \<^verbatim>\<open>apply(B, T)\<close> return a class and
  let \<^verbatim>\<open>new\<close> on that class return an object directly below the prototype of the
  class, with the objects that existed before unchanged; the constructors that classes have
  by default do that (\<open>construct_base\<close>, \<open>construct_derived\<close>,
  \<open>allocateInstance_below\<close>).  Then \<^verbatim>\<open>expresses(instance, T)\<close> is true.  In general
  \<^verbatim>\<open>expresses\<close> walks the prototype chain: it is false at \<^verbatim>\<open>null\<close> and
  \<^verbatim>\<open>undefined\<close>, true at an object for which \<^verbatim>\<open>isTraitificationOf\<close> is true, and
  otherwise what it is at the prototype of the object.
\<close>

theorem expresses_instance:
  assumes "applyFn \<Gamma> B T h = (Inr app, h1)" and "construct \<Gamma> app h1 = (Inr i, h2)"
    and "wellFormed h1" and "allocated h1 T" and "allocated h1 app"
    and "unchanged h1 h2" and "getPrototypeOf h2 i = get h1 app Kprototype"
  shows "expresses h2 i T = Inr True
       \<and> expresses k Null U = Inr False \<and> expresses k Undefined U = Inr False
       \<and> (isTraitificationOf k v U = Inr True \<longrightarrow> expresses k v U = Inr True)
       \<and> (isTraitificationOf k v U = Inr False \<and> getPrototypeOf k v = Inr p \<longrightarrow>
            expresses k v U = expresses k p U)"
proof -
  from applyFn_marks [OF assms(1)] obtain a u where
    pr: "get h1 app Kprototype = Inr (Ref a)" and
    mk: "props (objs h1 a) KappliedTrait = Some u" and
    un: "unwrap h1 T = Inr u" by blast
  from assms(1) obtain h0 where "invoke \<Gamma> T B h = (Inr app, h0)"
    by (auto simp: applyFn_def dest: applyWith_Inr)
  from invoke_Ref [OF this] obtain t where T: "T = Ref t" by blast
  with assms(4) have t: "t < nxt h1" by (simp add: allocated_def)
  from construct_arg_Ref [OF assms(2)] obtain c where c: "app = Ref c" by blast
  from construct_Ref [OF assms(2)] obtain b where i: "i = Ref b" by blast
  from c assms(5) have "c < nxt h1" by (simp add: allocated_def)
  moreover from pr c have "lookup h1 c Kprototype = Some (Ref a)"
    by (simp add: get_def returned_def split: option.splits)
  ultimately have "allocated h1 (Ref a)"
    using assms(3) by (blast intro: lookup_prototype_allocated)
  then have a: "a < nxt h1" by (simp add: allocated_def)
  from unchanged_obj(2) [OF assms(6) a] mk have mk2: "props (objs h2 a) KappliedTrait = Some u"
    by simp
  from get_unchanged [OF assms(3,6) t] un have un2: "unwrap h2 T = Inr u"
    by (simp add: unwrap_def T)
  have nx: "getPrototypeOf h2 i = Inr (Ref a)"
    using assms(7) pr by simp
  have 3: "isTraitificationOf h2 (Ref a) T = Inr True"
    using mk2 un2
    by (simp add: isTraitificationOf_def hasOwnProperty_def get_def returned_def lookup_own)
  have found: "expresses k v U = Inr True" if "isTraitificationOf k v U = Inr True" for k v U
    using that by (cases v) (auto simp: expresses_found isTraitificationOf_def hasOwnProperty_def)
  obtain bb where 1: "isTraitificationOf h2 i T = Inr bb"
    using un2
    by (cases "props (objs h2 b) KappliedTrait")
       (auto simp: isTraitificationOf_def hasOwnProperty_def i get_def returned_def lookup_own)
  have "expresses h2 i T = Inr True"
  proof (cases bb)
    case True
    with 1 show ?thesis by (simp add: found)
  next
    case False
    with 1 expresses_next [OF _ nx] found [OF 3] show ?thesis by simp
  qed
  then show ?thesis
    by (simp add: expresses_stop expresses_next found)
qed

theorem expresses_instance_witness:
  "\<exists>h1 h2. applyFn testEnv (Ref ObjectCtor) (Ref 5) testHeap = (Inr (Ref 8), h1)
     \<and> construct testEnv (Ref 8) h1 = (Inr (Ref 9), h2)
     \<and> wellFormed h1 \<and> allocated h1 (Ref 5) \<and> allocated h1 (Ref 8)
     \<and> unchanged h1 h2 \<and> getPrototypeOf h2 (Ref 9) = get h1 (Ref 8) Kprototype
     \<and> expresses h2 (Ref 9) (Ref 5) = Inr True
     \<and> isTraitificationOf h2 (Ref 7) (Ref 5) = Inr True
     \<and> expresses h2 (Ref 7) (Ref 5) = Inr True
     \<and> isTraitificationOf h2 (Ref 9) (Ref 5) = Inr False
     \<and> getPrototypeOf h2 (Ref 9) = Inr (Ref 7)
     \<and> expresses h2 (Ref 9) (Ref 5) = expresses h2 (Ref 7) (Ref 5)"
proof -
  define h1 where "h1 = snd (applyFn testEnv (Ref ObjectCtor) (Ref 5) testHeap)"
  define h2 where "h2 = snd (construct testEnv (Ref 8) h1)"
  have "fst (applyFn testEnv (Ref ObjectCtor) (Ref 5) testHeap) = Inr (Ref 8)" by code_simp
  then have 1: "applyFn testEnv (Ref ObjectCtor) (Ref 5) testHeap = (Inr (Ref 8), h1)"
    by (simp add: h1_def prod_eq_iff)
  have "fst (construct testEnv (Ref 8) h1) = Inr (Ref 9)" unfolding h1_def by code_simp
  then have 2: "construct testEnv (Ref 8) h1 = (Inr (Ref 9), h2)"
    by (simp add: h2_def prod_eq_iff)
  have 3: "wellFormed h1" unfolding h1_def by code_simp
  have 4: "allocated h1 (Ref 5)" unfolding h1_def by code_simp
  have 5: "allocated h1 (Ref 8)" unfolding h1_def by code_simp
  have 6: "unchanged h1 h2" unfolding h2_def h1_def by code_simp
  have 7: "getPrototypeOf h2 (Ref 9) = get h1 (Ref 8) Kprototype"
    unfolding h2_def h1_def by code_simp
  have 8: "isTraitificationOf h2 (Ref 7) (Ref 5) = Inr True"
    unfolding h2_def h1_def by code_simp
  have 9: "isTraitificationOf h2 (Ref 9) (Ref 5) = Inr False"
    unfolding h2_def h1_def by code_simp
  have 10: "getPrototypeOf h2 (Ref 9) = Inr (Ref 7)"
    unfolding h2_def h1_def by code_simp
  from expresses_instance [OF 1 2 3 4 5 6 7, of h2 "Ref 5" "Ref 7"] 8
  have a: "expresses h2 (Ref 9) (Ref 5) = Inr True" "expresses h2 (Ref 7) (Ref 5) = Inr True"
    by simp_all
  from expresses_instance [OF 1 2 3 4 5 6 7, of h2 "Ref 5" "Ref 9" "Ref 7"] 9 10
  have b: "expresses h2 (Ref 9) (Ref 5) = expresses h2 (Ref 7) (Ref 5)"
    by blast
  from 1 2 3 4 5 6 7 8 9 10 a b show ?thesis by blast
qed

text \<open>
  The claim as stated, for every trait function, fails for a trait whose class declares a
  constructor that returns another object:
  \<^verbatim>\<open>s => class extends s { constructor() { super(); return Object.create(null) } }\<close>.
  \<^verbatim>\<open>new\<close> returns that object, which has no prototype, and \<^verbatim>\<open>expresses\<close> is false.
\<close>

theorem expresses_foreign_instance_counterexample:
  "applyFn testEnv (Ref ObjectCtor) (Ref 7) foreignHeap = (Inr (Ref 9), foreignClassHeap)
   \<and> construct testEnv (Ref 9) foreignClassHeap = (Inr (Ref 10), foreignInstanceHeap)
   \<and> expresses foreignInstanceHeap (Ref 10) (Ref 7) = Inr False"
proof -
  have "fst (applyFn testEnv (Ref ObjectCtor) (Ref 7) foreignHeap) = Inr (Ref 9)" by code_simp
  then have 1: "applyFn testEnv (Ref ObjectCtor) (Ref 7) foreignHeap = (Inr (Ref 9), foreignClassHeap)"
    by (simp add: foreignClassHeap_def prod_eq_iff)
  have "fst (construct testEnv (Ref 9) foreignClassHeap) = Inr (Ref 10)" by code_simp
  then have 2: "construct testEnv (Ref 9) foreignClassHeap = (Inr (Ref 10), foreignInstanceHeap)"
    by (simp add: foreignInstanceHeap_def prod_eq_iff)
  have 3: "expresses foreignInstanceHeap (Ref 10) (Ref 7) = Inr False" by code_simp
  from 1 2 3 show ?thesis by blast
qed


subsection \<open>HasInstance\<close>

lemma HasInstance_Inr:
  assumes "HasInstance T h = (Inr r, h1)"
  shows "r = T \<and> (\<exists>prior. get h T KhasInstance = Inr prior
           \<and> get h1 T KhasInstance = Inr (Ref (nxt h))
           \<and> code_of h1 (Ref (nxt h)) = HasInstanceFn (code_of h prior) T)
         \<and> isObject T"
proof -
  from assms obtain prior where g: "get h T KhasInstance = Inr prior"
    by (auto simp: HasInstance_def split: sum.splits)
  define f where "f = nxt h"
  define c where "c = HasInstanceFn (code_of h prior) T"
  define ha where "ha = snd (newFunction c h)"
  have nf: "newFunction c h = (f, ha)"
    by (simp add: ha_def f_def newFunction_def alloc_def)
  have cf: "code (objs ha f) = c"
    by (simp add: ha_def f_def newFunction_def alloc_def)
  from assms g nf obtain u where
    dp: "defineProperty ha T KhasInstance (Ref f) = (Inr u, h1)" and r: "r = T"
    by (auto simp: HasInstance_def c_def split: sum.splits prod.splits)
  from dp obtain t where T: "T = Ref t"
    by (cases T) (auto simp: defineProperty_def)
  from dp have own: "props (objs h1 t) KhasInstance = Some (Ref f)"
    by (auto simp: defineProperty_def T split: option.splits if_splits)
  from defineProperty_code [OF dp, of f] cf have "code (objs h1 f) = c" by simp
  with own r g show ?thesis
    by (auto simp: T get_def returned_def lookup_own code_of_def f_def c_def isObject_def)
qed

text \<open>
  The method that \<^verbatim>\<open>HasInstance(T)\<close> installs, on the heap that \<^verbatim>\<open>HasInstance\<close> leaves:
  \<^verbatim>\<open>v instanceof T\<close> first calls the method that \<open>T\<close> had under
  \<^verbatim>\<open>Symbol.hasInstance\<close> before, as a plain function.  An exception of that call is the
  result; a truthy value makes the result true; otherwise the result is
  \<^verbatim>\<open>expresses(v, T)\<close>.
\<close>

lemma HasInstance_instanceof:
  assumes "HasInstance T h = (Inr r, h1)" and "get h T KhasInstance = Inr prior"
  shows "r = T
       \<and> instanceof \<Gamma> v T h1 =
           (case call \<Gamma> (code_of h prior) v h1 of
              (Inl e, h2) \<Rightarrow> (Inl e, h2)
            | (Inr pv, h2) \<Rightarrow>
                (if truthy pv then (Inr True, h2)
                 else (case expresses h2 v T of
                         Inl e \<Rightarrow> (Inl e, h2)
                       | Inr b \<Rightarrow> (Inr b, h2))))
       \<and> (code_of h prior = FunctionPrototypeHasInstance \<longrightarrow>
            instanceof \<Gamma> v T h1 = (expresses h1 v T, h1))"
proof -
  from HasInstance_Inr [OF assms(1)] assms(2) have r: "r = T" and ob: "isObject T"
    and g1: "get h1 T KhasInstance = Inr (Ref (nxt h))"
    and c1: "code_of h1 (Ref (nxt h)) = HasInstanceFn (code_of h prior) T"
    by auto
  have 1: "instanceof \<Gamma> v T h1 =
           (case call \<Gamma> (code_of h prior) v h1 of
              (Inl e, h2) \<Rightarrow> (Inl e, h2)
            | (Inr pv, h2) \<Rightarrow>
                (if truthy pv then (Inr True, h2)
                 else (case expresses h2 v T of
                         Inl e \<Rightarrow> (Inl e, h2)
                       | Inr b \<Rightarrow> (Inr b, h2))))"
    using ob g1 c1
    by (auto simp: instanceof_def HasInstanceBody_def split: prod.splits sum.splits)
  have 2: "instanceof \<Gamma> v T h1 = (expresses h1 v T, h1)"
    if "code_of h prior = FunctionPrototypeHasInstance"
    unfolding 1 using that by (simp split: sum.splits)
  from r 1 2 show ?thesis by blast
qed

text \<open>
  Claim C8.  The method installed by \<^verbatim>\<open>HasInstance\<close> calls the earlier method as
  \<^verbatim>\<open>priorHasInstance(it)\<close>, without \<^verbatim>\<open>this\<close>.  For a function that had the built-in
  method of \<^verbatim>\<open>Function.prototype\<close>, which compares \<^verbatim>\<open>this.prototype\<close> with the prototype
  chain of the value, the call answers false for every value, and the type check that the
  function had is lost.  For \<^verbatim>\<open>function T(s) { return class extends s {} }\<close> and
  \<^verbatim>\<open>v = Object.create(T.prototype)\<close>, the check \<^verbatim>\<open>v instanceof T\<close> is true before
  \<^verbatim>\<open>HasInstance(T)\<close>; afterwards it is false, and so is \<^verbatim>\<open>expresses(v, T)\<close>.  The same
  happens for \<^verbatim>\<open>class A {}\<close> and \<^verbatim>\<open>new A()\<close>.
\<close>

theorem HasInstance_loses_builtin_check:
  "code_of functionHeap (Ref 6) = Raw 0
   \<and> get functionHeap (Ref 6) Kprototype = Inr (Ref 5)
   \<and> getPrototypeOf functionHeap (Ref 7) = Inr (Ref 5)
   \<and> instanceof testEnv (Ref 7) (Ref 6) functionHeap = (Inr True, functionHeap)
   \<and> HasInstance (Ref 6) functionHeap = (Inr (Ref 6), decoratedFunctionHeap)
   \<and> instanceof testEnv (Ref 7) (Ref 6) decoratedFunctionHeap = (Inr False, decoratedFunctionHeap)
   \<and> expresses decoratedFunctionHeap (Ref 7) (Ref 6) = Inr False
   \<and> instanceof testEnv (Ref 7) (Ref 6) classHeap = (Inr True, classHeap)
   \<and> HasInstance (Ref 6) classHeap = (Inr (Ref 6), decoratedClassHeap)
   \<and> instanceof testEnv (Ref 7) (Ref 6) decoratedClassHeap = (Inr False, decoratedClassHeap)
   \<and> expresses decoratedClassHeap (Ref 7) (Ref 6) = Inr False"
proof -
  have 1: "code_of functionHeap (Ref 6) = Raw 0" by code_simp
  have 2: "get functionHeap (Ref 6) Kprototype = Inr (Ref 5)" by code_simp
  have 3: "getPrototypeOf functionHeap (Ref 7) = Inr (Ref 5)" by code_simp
  have before: "instanceof testEnv (Ref 7) (Ref 6) h = (Inr True, h)"
    if "get h (Ref 6) KhasInstance = Inr (Ref functionProtoHasInstance)"
      and "code_of h (Ref functionProtoHasInstance) = FunctionPrototypeHasInstance"
      and "ordinaryHasInstance h (Ref 6) (Ref 7) = Inr True" for h
    using that by (simp add: instanceof_def isObject_def)
  have fg: "get functionHeap (Ref 6) KhasInstance = Inr (Ref functionProtoHasInstance)"
    by code_simp
  have fc: "code_of functionHeap (Ref functionProtoHasInstance) = FunctionPrototypeHasInstance"
    by code_simp
  have "ordinaryHasInstance functionHeap (Ref 6) (Ref 7) = Inr True" by code_simp
  with fg fc have 4: "instanceof testEnv (Ref 7) (Ref 6) functionHeap = (Inr True, functionHeap)"
    by (rule before)
  have "fst (HasInstance (Ref 6) functionHeap) = Inr (Ref 6)" by code_simp
  then have 5: "HasInstance (Ref 6) functionHeap = (Inr (Ref 6), decoratedFunctionHeap)"
    by (simp add: decoratedFunctionHeap_def prod_eq_iff)
  have 7: "expresses decoratedFunctionHeap (Ref 7) (Ref 6) = Inr False" by code_simp
  from HasInstance_instanceof [OF 5 fg, of testEnv "Ref 7"] fc 7
  have 6: "instanceof testEnv (Ref 7) (Ref 6) decoratedFunctionHeap
             = (Inr False, decoratedFunctionHeap)"
    by simp
  have cg: "get classHeap (Ref 6) KhasInstance = Inr (Ref functionProtoHasInstance)"
    by code_simp
  have cc: "code_of classHeap (Ref functionProtoHasInstance) = FunctionPrototypeHasInstance"
    by code_simp
  have "ordinaryHasInstance classHeap (Ref 6) (Ref 7) = Inr True" by code_simp
  with cg cc have 8: "instanceof testEnv (Ref 7) (Ref 6) classHeap = (Inr True, classHeap)"
    by (rule before)
  have "fst (HasInstance (Ref 6) classHeap) = Inr (Ref 6)" by code_simp
  then have 9: "HasInstance (Ref 6) classHeap = (Inr (Ref 6), decoratedClassHeap)"
    by (simp add: decoratedClassHeap_def prod_eq_iff)
  have 11: "expresses decoratedClassHeap (Ref 7) (Ref 6) = Inr False" by code_simp
  from HasInstance_instanceof [OF 9 cg, of testEnv "Ref 7"] cc 11
  have 10: "instanceof testEnv (Ref 7) (Ref 6) decoratedClassHeap
             = (Inr False, decoratedClassHeap)"
    by simp
  from 1 2 3 4 5 6 7 8 9 10 11 show ?thesis by blast
qed

end
